theory Spec2Isabelle
  imports Complex_Main "HOL-Library.Sublist"
begin

section \<open>Strings\<close>

text \<open>
  A JavaScript string is modelled as a \<^typ>\<open>string\<close>: the bytes of its UTF-8 encoding.
  An ASCII character is one byte, and that byte occurs in the encoding of no other
  character; so splitting at line feeds, comparing with ASCII text and reading digits
  give on the bytes what they give on the code units of the string. White space
  outside ASCII is recognised by its byte sequences, and upper-casing is left to the
  engine (see below).
\<close>

definition newline :: char where
  "newline = CHR 0x0A"

text \<open>\<^verbatim>\<open>s.startsWith(p)\<close>\<close>

definition startsWith :: "string \<Rightarrow> string \<Rightarrow> bool" where
  "startsWith s p = (take (length p) s = p)"

text \<open>
  \<^verbatim>\<open>s.split('\n')\<close>: the pieces between line feeds. The empty string splits into one
  empty piece, and a trailing line feed gives a last, empty piece.
\<close>

fun split_lines :: "string \<Rightarrow> string list" where
  "split_lines [] = [[]]"
| "split_lines (c # cs) =
     (if c = newline then [] # split_lines cs
      else (case split_lines cs of
              [] \<Rightarrow> [[c]]
            | l # ls \<Rightarrow> (c # l) # ls))"

text \<open>The regular expression class \<^verbatim>\<open>\d\<close>: the ten ASCII digits.\<close>

definition is_digit :: "char \<Rightarrow> bool" where
  "is_digit c = (c \<in> set ''0123456789'')"

section \<open>Numbers\<close>

text \<open>
  A JavaScript number is a double. The numbers of the resolver are whole: the value
  of a run of digits, and what subtracting 1, adding 1 and adding two such values
  gives. Such a number is modelled by the whole number it stands for, or is
  \<open>Infinity\<close>; every operation rounds its exact result to the nearest double, to the
  even one of two nearest.

  \<open>binary_length n\<close> is the number of binary digits of \<open>n\<close>. A double holds 53 of
  them: \<open>round53\<close> rounds the digits below the leading 53 away. A result of more than
  1024 binary digits is beyond the largest double and becomes \<open>Infinity\<close>. A whole
  number up to \<open>2^53 = 9007199254740992\<close> is a double as it stands.
\<close>

datatype number = Finite int | Infinity

function binary_length :: "int \<Rightarrow> nat" where
  "binary_length n = (if n \<le> 0 then 0 else Suc (binary_length (n div 2)))"
  by pat_completeness auto

termination
  by (relation "measure nat") auto

declare binary_length.simps [simp del]

definition round53 :: "int \<Rightarrow> int" where
  "round53 n =
     (let e = binary_length n - 53;
          q = n div 2 ^ e;
          r = n mod 2 ^ e
      in if 2 ^ e < 2 * r \<or> (2 * r = 2 ^ e \<and> odd q) then (q + 1) * 2 ^ e else q * 2 ^ e)"

text \<open>The double nearest to a whole number that is not negative.\<close>

definition to_number :: "int \<Rightarrow> number" where
  "to_number n =
     (if n \<le> 9007199254740992 then Finite n
      else if 1024 < binary_length (round53 n) then Infinity
      else Finite (round53 n))"

text \<open>
  The double nearest to a whole number of either sign. Below zero the resolver only
  meets \<open>0 - 1\<close>; no difference of its numbers is beyond the largest double.
\<close>

definition round_int :: "int \<Rightarrow> number" where
  "round_int x = (if 0 \<le> x then to_number x else Finite (- round53 (- x)))"

text \<open>\<^verbatim>\<open>x - 1\<close>, \<^verbatim>\<open>x + 1\<close> (the effect of \<^verbatim>\<open>x++\<close>) and \<^verbatim>\<open>x + y\<close>.\<close>

definition minus_one :: "number \<Rightarrow> number" where
  "minus_one x = (case x of Finite a \<Rightarrow> round_int (a - 1) | Infinity \<Rightarrow> Infinity)"

definition plus_one :: "number \<Rightarrow> number" where
  "plus_one x = (case x of Finite a \<Rightarrow> round_int (a + 1) | Infinity \<Rightarrow> Infinity)"

definition add_numbers :: "number \<Rightarrow> number \<Rightarrow> number" where
  "add_numbers x y =
     (case x of
        Infinity \<Rightarrow> Infinity
      | Finite a \<Rightarrow> (case y of Infinity \<Rightarrow> Infinity | Finite b \<Rightarrow> round_int (a + b)))"

text \<open>
  \<^verbatim>\<open>parseInt(ds, 10)\<close> on a run of digits: the value of the digits, rounded. (The
  standard lets an engine approximate a value of more than 20 significant digits
  before it rounds; here the exact value is rounded.)
\<close>

definition digit_val :: "char \<Rightarrow> int" where
  "digit_val c = of_char c - 48"

definition parseInt :: "string \<Rightarrow> number" where
  "parseInt ds = to_number (foldl (\<lambda>acc c. 10 * acc + digit_val c) 0 ds)"

section \<open>Matching the hunk-header patterns\<close>

text \<open>
  A literal piece of a pattern: \<open>expect lit s\<close> is the rest of \<open>s\<close> after \<open>lit\<close>,
  when \<open>s\<close> starts with it.
\<close>

definition expect :: "string \<Rightarrow> string \<Rightarrow> string option" where
  "expect lit s = (if startsWith s lit then Some (drop (length lit) s) else None)"

text \<open>
  \<^verbatim>\<open>\d+\<close>: the longest run of digits, which must not be empty. In both patterns of the
  source a run of digits is followed by a character that is no digit or by the end of
  the pattern, so giving back digits never turns a failed match into a successful one:
  the greedy choice is the only one.
\<close>

definition digits1 :: "string \<Rightarrow> (string \<times> string) option" where
  "digits1 s =
     (if takeWhile is_digit s = [] then None
      else Some (takeWhile is_digit s, dropWhile is_digit s))"

text \<open>
  \<^verbatim>\<open>/@@ -\d+,\d+ \+(\d+)/\<close> tried at the start of \<open>s\<close>: the digits of group 1.
\<close>

definition start_match_at :: "string \<Rightarrow> string option" where
  "start_match_at s =
     Option.bind (expect ''@@ -'' s) (\<lambda>s1.
     Option.bind (digits1 s1) (\<lambda>(o_digits, s2).
     Option.bind (expect '','' s2) (\<lambda>s3.
     Option.bind (digits1 s3) (\<lambda>(p_digits, s4).
     Option.bind (expect '' +'' s4) (\<lambda>s5.
     Option.bind (digits1 s5) (\<lambda>(n_digits, s6).
       Some n_digits))))))"

text \<open>
  \<^verbatim>\<open>line.match(/@@ -\d+,\d+ \+(\d+)/)\<close>: the pattern is not anchored, so the leftmost
  position of the line at which it matches is taken.
\<close>

fun start_match :: "string \<Rightarrow> string option" where
  "start_match [] = None"
| "start_match (c # cs) =
     (case start_match_at (c # cs) of
        Some d \<Rightarrow> Some d
      | None \<Rightarrow> start_match cs)"

section \<open>\<^verbatim>\<open>ReviewEngineCore.getPositionInDiff\<close>\<close>

text \<open>
  The body of the \<^verbatim>\<open>for\<close> loop, on the lines not yet visited; \<open>position\<close> and
  \<open>currentLine\<close> are the loop's two variables. \<open>None\<close> is \<^verbatim>\<open>null\<close>. The target is a
  whole number; \<^verbatim>\<open>currentLine === targetLine\<close> holds when \<open>currentLine\<close> is that number.
\<close>

fun scan_lines :: "string list \<Rightarrow> int \<Rightarrow> nat \<Rightarrow> number \<Rightarrow> nat option" where
  "scan_lines [] targetLine position currentLine = None"
| "scan_lines (line # rest) targetLine position currentLine =
     (if startsWith line ''@@'' then
        (case start_match line of
           Some d \<Rightarrow> scan_lines rest targetLine (position + 1) (minus_one (parseInt d))
         | None \<Rightarrow> scan_lines rest targetLine (position + 1) currentLine)
      else if startsWith line ''+'' \<or> startsWith line '' '' then
        (if plus_one currentLine = Finite targetLine then Some (position + 1)
         else scan_lines rest targetLine (position + 1) (plus_one currentLine))
      else scan_lines rest targetLine (position + 1) currentLine)"

definition getPositionInDiff :: "string \<Rightarrow> int \<Rightarrow> nat option" where
  "getPositionInDiff patch targetLine = scan_lines (split_lines patch) targetLine 0 (Finite 0)"

section \<open>\<^verbatim>\<open>ReviewEngineCore.isLineInHunk\<close>\<close>

text \<open>
  \<^verbatim>\<open>/@@ -\d+,\d+ \+(\d+),(\d+) @@/\<close> tried at the start of \<open>s\<close>: the digits of
  groups 1 and 2 and the number of characters matched.
\<close>

definition hunkRegex_at :: "string \<Rightarrow> (string \<times> string \<times> nat) option" where
  "hunkRegex_at s =
     Option.bind (expect ''@@ -'' s) (\<lambda>s1.
     Option.bind (digits1 s1) (\<lambda>(o_digits, s2).
     Option.bind (expect '','' s2) (\<lambda>s3.
     Option.bind (digits1 s3) (\<lambda>(p_digits, s4).
     Option.bind (expect '' +'' s4) (\<lambda>s5.
     Option.bind (digits1 s5) (\<lambda>(n_digits, s6).
     Option.bind (expect '','' s6) (\<lambda>s7.
     Option.bind (digits1 s7) (\<lambda>(q_digits, s8).
     Option.bind (expect '' @@'' s8) (\<lambda>s9.
       Some (n_digits, q_digits, length s - length s9))))))))))"

text \<open>
  The test \<^verbatim>\<open>line >= startLine && line < startLine + numLines\<close>, the sum rounded.
\<close>

definition in_hunk :: "int \<Rightarrow> number \<Rightarrow> number \<Rightarrow> bool" where
  "in_hunk lnum startLine numLines =
     ((case startLine of Finite a \<Rightarrow> a \<le> lnum | Infinity \<Rightarrow> False)
      \<and> (case add_numbers startLine numLines of Finite b \<Rightarrow> lnum < b | Infinity \<Rightarrow> True))"

text \<open>
  The \<^verbatim>\<open>while\<close> loop over \<^verbatim>\<open>hunkRegex.exec(patch)\<close>. The pattern has the flag
  \<^verbatim>\<open>g\<close>: each search resumes where the last match ended, so matches do not overlap.
  The function runs over the text still to be searched; \<open>skip\<close> counts the characters
  of the last match that lie ahead (the distance to \<^verbatim>\<open>lastIndex\<close>).
\<close>

fun hunk_loop :: "nat \<Rightarrow> string \<Rightarrow> int \<Rightarrow> bool" where
  "hunk_loop skip [] lnum = False"
| "hunk_loop (Suc skip) (c # cs) lnum = hunk_loop skip cs lnum"
| "hunk_loop 0 (c # cs) lnum =
     (case hunkRegex_at (c # cs) of
        None \<Rightarrow> hunk_loop 0 cs lnum
      | Some (n_digits, q_digits, len) \<Rightarrow>
          if in_hunk lnum (parseInt n_digits) (parseInt q_digits) then True
          else hunk_loop (len - 1) cs lnum)"

definition isLineInHunk :: "string \<Rightarrow> int \<Rightarrow> bool" where
  "isLineInHunk patch lnum = hunk_loop 0 patch lnum"

section \<open>The walk of the specification\<close>

text \<open>
  The walk of section 4.1, written from its words and with nothing of the loop above:
  the lines of the text, the lines that advance the new-file line, whole numbers as
  they are written, and the header \<^verbatim>\<open>@@ -o,p +n,q @@\<close>.
\<close>

definition text_lines :: "string \<Rightarrow> string list" where
  "text_lines s = foldr (\<lambda>c ls. if c = CHR 0x0A then [] # ls else (c # hd ls) # tl ls) s [[]]"

definition advances :: "string \<Rightarrow> bool" where
  "advances l = (prefix ''+'' l \<or> prefix '' '' l)"

text \<open>The value of a decimal digit, and of a run of digits given last digit first.\<close>

definition digit_of :: "char \<Rightarrow> int option" where
  "digit_of = map_of (zip ''0123456789'' [0, 1, 2, 3, 4, 5, 6, 7, 8, 9])"

fun units_first :: "string \<Rightarrow> int" where
  "units_first [] = 0"
| "units_first (d # ds) = (case digit_of d of Some v \<Rightarrow> v | None \<Rightarrow> 0) + 10 * units_first ds"

definition decimal :: "string \<Rightarrow> int" where
  "decimal ds = units_first (rev ds)"

text \<open>
  Reading a piece of a header from the start of a text: \<open>after lit s\<close> is what follows
  the literal text \<open>lit\<close>, and \<open>number_then s\<close> is the number written at the start of
  \<open>s\<close> with what follows it.
\<close>

definition after :: "string \<Rightarrow> string \<Rightarrow> string option" where
  "after lit s = (if prefix lit s then Some (drop (length lit) s) else None)"

definition number_then :: "string \<Rightarrow> (int \<times> string) option" where
  "number_then s =
     (let ds = takeWhile (\<lambda>c. digit_of c \<noteq> None) s
      in if ds = [] then None else Some (decimal ds, dropWhile (\<lambda>c. digit_of c \<noteq> None) s))"

text \<open>
  A hunk header: a line that begins \<^verbatim>\<open>@@ -o,p +n,q @@\<close>, with numbers \<open>o\<close>, \<open>p\<close>, \<open>n\<close>
  and \<open>q\<close>. It gives the new-file start \<open>n\<close> and the new-file length \<open>q\<close>.
\<close>

definition full_header :: "string \<Rightarrow> (int \<times> int) option" where
  "full_header l =
     Option.bind (after ''@@ -'' l) (\<lambda>t1.
     Option.bind (number_then t1) (\<lambda>(old_start, t2).
     Option.bind (after '','' t2) (\<lambda>t3.
     Option.bind (number_then t3) (\<lambda>(old_length, t4).
     Option.bind (after '' +'' t4) (\<lambda>t5.
     Option.bind (number_then t5) (\<lambda>(n, t6).
     Option.bind (after '','' t6) (\<lambda>t7.
     Option.bind (number_then t7) (\<lambda>(q, t8).
     Option.bind (after '' @@'' t8) (\<lambda>t9.
       Some (n, q))))))))))"

text \<open>
  The new-file line once the walk has visited some lines, given latest first: a header
  resets it to \<open>n - 1\<close>, a line that advances adds one, any other line leaves it.
  Before the first header there is no new-file line (\<open>None\<close>): a patch without
  headers resolves nothing.
\<close>

fun reference_new_line :: "string list \<Rightarrow> int option" where
  "reference_new_line [] = None"
| "reference_new_line (l # earlier) =
     (case full_header l of
        Some (n, q) \<Rightarrow> Some (n - 1)
      | None \<Rightarrow>
          if advances l then map_option (\<lambda>c. c + 1) (reference_new_line earlier)
          else reference_new_line earlier)"

text \<open>
  Position \<open>k\<close> (counted from 1 over all lines, headers included) is a hit when line
  \<open>k\<close> advances and the new-file line is then the target. The walk returns the first
  hit, and nothing for a target that is not positive.
\<close>

definition reference_hit :: "string list \<Rightarrow> int \<Rightarrow> nat \<Rightarrow> bool" where
  "reference_hit ls target k =
     (advances (ls ! (k - 1)) \<and> reference_new_line (rev (take k ls)) = Some target)"

definition reference_walk :: "string \<Rightarrow> int \<Rightarrow> nat option" where
  "reference_walk patch target =
     (if target \<le> 0 then None
      else find (reference_hit (text_lines patch) target) [1..<Suc (length (text_lines patch))])"

section \<open>The walk as amended\<close>

text \<open>
  The same walk with the three rules of the loop in place of those of section 4.1. A
  line resets the new-file line when it begins with \<^verbatim>\<open>@@\<close> and holds text of the form
  \<^verbatim>\<open>@@ -o,p +n\<close>: the first such text of the line is read, and nothing need follow
  \<open>n\<close>. The new-file line is 0 before the first reset. No target is set apart.

  \<open>header_text s\<close> reads the form at the start of \<open>s\<close> and gives \<open>n\<close> with what follows
  it; \<open>read_header l\<close> does so at the first place of the line \<open>l\<close> where it can.
\<close>

definition header_text :: "string \<Rightarrow> (int \<times> string) option" where
  "header_text s =
     Option.bind (after ''@@ -'' s) (\<lambda>t1.
     Option.bind (number_then t1) (\<lambda>(old_start, t2).
     Option.bind (after '','' t2) (\<lambda>t3.
     Option.bind (number_then t3) (\<lambda>(old_length, t4).
     Option.bind (after '' +'' t4) (\<lambda>t5.
       number_then t5)))))"

fun first_some :: "'a option list \<Rightarrow> 'a option" where
  "first_some [] = None"
| "first_some (x # xs) = (case x of Some v \<Rightarrow> Some v | None \<Rightarrow> first_some xs)"

definition read_header :: "string \<Rightarrow> (int \<times> string) option" where
  "read_header l =
     (if prefix ''@@'' l then first_some (map header_text (rev (suffixes l))) else None)"

definition header_start :: "string \<Rightarrow> int option" where
  "header_start l = map_option fst (read_header l)"

fun amended_new_line :: "string list \<Rightarrow> int" where
  "amended_new_line [] = 0"
| "amended_new_line (l # earlier) =
     (case header_start l of
        Some n \<Rightarrow> n - 1
      | None \<Rightarrow> if advances l then amended_new_line earlier + 1 else amended_new_line earlier)"

definition amended_hit :: "string list \<Rightarrow> int \<Rightarrow> nat \<Rightarrow> bool" where
  "amended_hit ls target k =
     (advances (ls ! (k - 1)) \<and> amended_new_line (rev (take k ls)) = target)"

definition amended_walk :: "string \<Rightarrow> int \<Rightarrow> nat option" where
  "amended_walk patch target =
     find (amended_hit (text_lines patch) target) [1..<Suc (length (text_lines patch))]"

text \<open>
  The numbers of a patch are exact in doubles when no new-file start that is read, and
  no value that the new-file line of this walk takes, is above \<open>2^53\<close>: up to there
  every whole number is a double.
\<close>

definition exact_numbers :: "string \<Rightarrow> bool" where
  "exact_numbers patch =
     (list_all
        (\<lambda>l. case header_start l of None \<Rightarrow> True | Some n \<Rightarrow> n \<le> 9007199254740992)
        (text_lines patch)
      \<and> list_all
          (\<lambda>k. amended_new_line (rev (take k (text_lines patch))) \<le> 9007199254740992)
          [0..<Suc (length (text_lines patch))])"

section \<open>Patches whose hunks are no longer than declared\<close>

text \<open>
  The range that a line declares: the new-file start \<open>n\<close> that is read from it, and
  the new-file length \<open>q\<close> written after \<open>n\<close> as \<^verbatim>\<open>,q\<close>, or 1 when no length is
  written (the unified format leaves a length of 1 out).
\<close>

definition header_range :: "string \<Rightarrow> (int \<times> int) option" where
  "header_range l =
     map_option
       (\<lambda>(n, rest). (n, case Option.bind (after '','' rest) number_then of
                            Some (q, t) \<Rightarrow> q
                          | None \<Rightarrow> 1))
       (read_header l)"

definition in_range :: "int \<Rightarrow> string \<Rightarrow> bool" where
  "in_range target l =
     (case header_range l of
        None \<Rightarrow> False
      | Some (n, q) \<Rightarrow> n \<le> target \<and> target < n + q)"

text \<open>
  No line that advances comes before the first line that declares a range, and after
  a line that declares \<open>[n, n + q)\<close> at most \<open>q\<close> lines advance before the next such
  line. \<open>r\<close> is the number of lines that may still advance.
\<close>

fun hunks_as_declared :: "string list \<Rightarrow> nat \<Rightarrow> bool" where
  "hunks_as_declared [] r = True"
| "hunks_as_declared (l # ls) r =
     (case header_range l of
        Some (n, q) \<Rightarrow> hunks_as_declared ls (nat q)
      | None \<Rightarrow>
          if advances l then 0 < r \<and> hunks_as_declared ls (r - 1)
          else hunks_as_declared ls r)"

definition well_formed_patch :: "string \<Rightarrow> bool" where
  "well_formed_patch patch = hunks_as_declared (text_lines patch) 0"

text \<open>
  A device of the proofs: the loop of \<open>getPositionInDiff\<close> in whole numbers, with the
  header read as above.
\<close>

fun exact_scan :: "string list \<Rightarrow> int \<Rightarrow> nat \<Rightarrow> int \<Rightarrow> nat option" where
  "exact_scan [] target position current = None"
| "exact_scan (l # ls) target position current =
     (case header_start l of
        Some n \<Rightarrow> exact_scan ls target (position + 1) (n - 1)
      | None \<Rightarrow>
          if advances l then
            (if current + 1 = target then Some (position + 1)
             else exact_scan ls target (position + 1) (current + 1))
          else exact_scan ls target (position + 1) current)"

section \<open>Example patches\<close>

text \<open>The patch of the scenario: a header, a context line, an addition, a context line.\<close>

definition scenario_patch :: string where
  "scenario_patch =
     ''@@ -1,2 +1,3 @@'' @ [newline] @ '' line1'' @ [newline] @ ''+line2'' @ [newline] @ '' line3''"

text \<open>
  A hunk of one new-file line, whose header leaves the length out; a context line
  before the first header; a header that starts at line 0; a header whose start is
  \<open>2^53 + 1\<close>; a hunk longer than its header declares; and a second hunk whose header
  leaves the old length out.
\<close>

definition one_line_hunk :: string where
  "one_line_hunk = ''@@ -3,2 +3 @@'' @ [newline] @ ''-a'' @ [newline] @ ''-b'' @ [newline] @ ''+c''"

definition early_context :: string where
  "early_context = '' x'' @ [newline] @ ''@@ -1,1 +5,1 @@'' @ [newline] @ ''+a''"

definition starts_at_zero :: string where
  "starts_at_zero = ''@@ -1,1 +0,1 @@'' @ [newline] @ '' x''"

definition beyond_doubles :: string where
  "beyond_doubles = ''@@ -1,1 +9007199254740993,1 @@'' @ [newline] @ ''+a''"

definition long_hunk :: string where
  "long_hunk = ''@@ -1,1 +1,1 @@'' @ [newline] @ ''+a'' @ [newline] @ ''+b''"

definition short_old_header :: string where
  "short_old_header =
     ''@@ -1,2 +1,2 @@'' @ [newline] @ '' a'' @ [newline] @ '' b'' @ [newline]
     @ ''@@ -10 +10,2 @@'' @ [newline] @ '' c'' @ [newline] @ '' d''"

section \<open>JavaScript values, exceptions and the engine\<close>

text \<open>
  The values that \<^verbatim>\<open>JSON.parse\<close> returns, and \<^verbatim>\<open>undefined\<close>. A number is its exact
  value (a literal beyond the range of a double has none here). An object lists each
  key once.
\<close>

datatype jsval =
  Undefined | Null | Bool bool | Num rat | Str string | Arr "jsval list"
| Obj "(string \<times> jsval) list"

text \<open>An exception has a name and a message.\<close>

datatype exn = Exn (exn_name: string) (exn_message: string)

text \<open>
  What the source takes from the JavaScript engine and its library, as parameters:
  \<^verbatim>\<open>JSON.parse\<close> (\<open>Inl\<close> the \<^verbatim>\<open>SyntaxError\<close> it throws), \<^verbatim>\<open>JSON.stringify\<close>, the
  conversion of a value to a string, the comparison \<^verbatim>\<open>v > 0\<close> of a value with a
  number, \<^verbatim>\<open>s.replace(/p/g, r)\<close> for a literal pattern \<open>p\<close> (in the order pattern,
  replacement, subject), the \<^verbatim>\<open>TypeError\<close> thrown when a property or method is
  read where there is none, given its name, \<^verbatim>\<open>s.toUpperCase()\<close>, which follows the
  tables of Unicode, and for each name that \<^verbatim>\<open>Object.prototype\<close> defines (such as
  \<^verbatim>\<open>constructor\<close> and \<^verbatim>\<open>toString\<close>) the text that a template literal writes for its
  value, \<open>None\<close> for every other name.
\<close>

record js_engine =
  JSON_parse :: "string \<Rightarrow> exn + jsval"
  JSON_stringify :: "jsval \<Rightarrow> string"
  ToString :: "jsval \<Rightarrow> string"
  greater_than_zero :: "jsval \<Rightarrow> bool"
  replace_each :: "string \<Rightarrow> string \<Rightarrow> string \<Rightarrow> string"
  type_error :: "string \<Rightarrow> exn"
  toUpperCase :: "string \<Rightarrow> string"
  inherited_text :: "string \<Rightarrow> string option"

text \<open>Truthiness: what \<^verbatim>\<open>!v\<close>, \<^verbatim>\<open>v || d\<close>, \<^verbatim>\<open>v && w\<close> and \<^verbatim>\<open>if (v)\<close> test.\<close>

fun truthy :: "jsval \<Rightarrow> bool" where
  "truthy Undefined = False"
| "truthy Null = False"
| "truthy (Bool b) = b"
| "truthy (Num r) = (r \<noteq> 0)"
| "truthy (Str s) = (s \<noteq> [])"
| "truthy (Arr xs) = True"
| "truthy (Obj kvs) = True"

text \<open>
  \<^verbatim>\<open>v.k\<close> for a name \<open>k\<close> that no built-in object defines (all names the source reads
  but \<^verbatim>\<open>length\<close>): the value under the key in an object, \<^verbatim>\<open>undefined\<close> in any other
  value, a \<^verbatim>\<open>TypeError\<close> on \<^verbatim>\<open>null\<close> and \<^verbatim>\<open>undefined\<close>.
\<close>

fun get_prop :: "js_engine \<Rightarrow> jsval \<Rightarrow> string \<Rightarrow> exn + jsval" where
  "get_prop E Undefined k = Inl (type_error E k)"
| "get_prop E Null k = Inl (type_error E k)"
| "get_prop E (Obj kvs) k = Inr (case map_of kvs k of None \<Rightarrow> Undefined | Some v \<Rightarrow> v)"
| "get_prop E v k = Inr Undefined"



text \<open>A value where a string is expected: a string is itself, any other value is converted.\<close>

definition as_text :: "js_engine \<Rightarrow> jsval \<Rightarrow> string" where
  "as_text E v = (case v of Str s \<Rightarrow> s | _ \<Rightarrow> ToString E v)"

text \<open>
  White space, for \<^verbatim>\<open>trim()\<close> and the class \<^verbatim>\<open>\s\<close>: the characters U+0009 to U+000D,
  U+0020, U+00A0, U+1680, U+2000 to U+200A, U+2028, U+2029, U+202F, U+205F, U+3000
  and U+FEFF, each by the bytes of its encoding.
\<close>

definition white_space :: "string list" where
  "white_space =
     [[CHR 0x09], [CHR 0x0A], [CHR 0x0B], [CHR 0x0C], [CHR 0x0D], [CHR 0x20],
      [CHR 0xC2, CHR 0xA0],
      [CHR 0xE1, CHR 0x9A, CHR 0x80],
      [CHR 0xE2, CHR 0x80, CHR 0x80], [CHR 0xE2, CHR 0x80, CHR 0x81],
      [CHR 0xE2, CHR 0x80, CHR 0x82], [CHR 0xE2, CHR 0x80, CHR 0x83],
      [CHR 0xE2, CHR 0x80, CHR 0x84], [CHR 0xE2, CHR 0x80, CHR 0x85],
      [CHR 0xE2, CHR 0x80, CHR 0x86], [CHR 0xE2, CHR 0x80, CHR 0x87],
      [CHR 0xE2, CHR 0x80, CHR 0x88], [CHR 0xE2, CHR 0x80, CHR 0x89],
      [CHR 0xE2, CHR 0x80, CHR 0x8A],
      [CHR 0xE2, CHR 0x80, CHR 0xA8], [CHR 0xE2, CHR 0x80, CHR 0xA9],
      [CHR 0xE2, CHR 0x80, CHR 0xAF],
      [CHR 0xE2, CHR 0x81, CHR 0x9F],
      [CHR 0xE3, CHR 0x80, CHR 0x80],
      [CHR 0xEF, CHR 0xBB, CHR 0xBF]]"

text \<open>
  \<open>leading ws s\<close> is the length of the member of \<open>ws\<close> that \<open>s\<close> begins with, 0 when
  there is none; \<open>strip ws s\<close> takes such members off the start of \<open>s\<close> as long as
  there is one.
\<close>

definition leading :: "string list \<Rightarrow> string \<Rightarrow> nat" where
  "leading ws s = (case find (\<lambda>w. prefix w s) ws of None \<Rightarrow> 0 | Some w \<Rightarrow> length w)"

function strip :: "string list \<Rightarrow> string \<Rightarrow> string" where
  "strip ws s = (if leading ws s = 0 then s else strip ws (drop (leading ws s) s))"
  by pat_completeness auto

termination
proof (relation "measure (\<lambda>(ws, s). length s)")
  show "wf (measure (\<lambda>(ws, s). length s))" by simp
next
  fix ws :: "string list" and s :: string
  assume "leading ws s \<noteq> 0"
  then have "s \<noteq> []"
    by (auto simp: leading_def find_Some_iff split: option.splits)
  with \<open>leading ws s \<noteq> 0\<close>
  show "((ws, drop (leading ws s) s), (ws, s)) \<in> measure (\<lambda>(ws, s). length s)" by simp
qed

declare strip.simps [simp del]

text \<open>\<^verbatim>\<open>s.trim()\<close>: the white space is taken off both ends.\<close>

definition trim :: "string \<Rightarrow> string" where
  "trim s = rev (strip (map rev white_space) (rev (strip white_space s)))"


text \<open>
  \<^verbatim>\<open>/\{[\s\S]*\}/\<close> and \<^verbatim>\<open>/\[[\s\S]*\]/\<close>: from the first opening character to the last
  closing character after it. The star is greedy and takes line feeds too; if the
  first opening character has no closing character after it, no later one has.
\<close>

definition span_match :: "char \<Rightarrow> char \<Rightarrow> string \<Rightarrow> string option" where
  "span_match opening closing s =
     (case dropWhile (\<lambda>c. c \<noteq> opening) s of
        [] \<Rightarrow> None
      | c # rest \<Rightarrow>
          if closing \<in> set rest
          then Some (c # rev (dropWhile (\<lambda>x. x \<noteq> closing) (rev rest)))
          else None)"

section \<open>Numbers and lists in text\<close>

text \<open>
  A whole number in a template literal: its decimal digits, with a sign when negative.
  So are written the counts, the sizes, the status of a response and the lines of
  compiler errors, which all stay below \<open>10^21\<close>, where JavaScript changes to the
  exponent form. The line of a finding, which the model gives, is written by the
  engine.
\<close>

fun show_nat :: "nat \<Rightarrow> string" where
  "show_nat n =
     (if n < 10 then [char_of (48 + n)]
      else show_nat (n div 10) @ [char_of (48 + n mod 10)])"

declare show_nat.simps [simp del]

definition show_int :: "int \<Rightarrow> string" where
  "show_int i = (if i < 0 then ''-'' @ show_nat (nat (- i)) else show_nat (nat i))"

text \<open>\<^verbatim>\<open>parts.join(sep)\<close>\<close>

fun join :: "string \<Rightarrow> string list \<Rightarrow> string" where
  "join sep [] = []"
| "join sep [x] = x"
| "join sep (x # y # ys) = x @ sep @ join sep (y # ys)"

section \<open>\<^verbatim>\<open>ReviewEngineCore.postReview\<close>\<close>

text \<open>
  The types of \<^verbatim>\<open>review-engine-types\<close> are read off their use in \<open>postReview\<close>:
  \<open>severity\<close>, \<open>line\<close> and \<open>suggestion\<close> of a finding may be undefined (\<open>None\<close>), and a
  line is a whole number.
\<close>

record ReviewFinding =
  severity :: "string option"
  category :: string
  filename :: string
  line :: "int option"
  message :: string
  suggestion :: "string option"

record FilterStats =
  ignored :: nat
  tooLarge :: nat
  reviewed :: nat
  total :: nat

record PostReviewContext =
  llmName :: string
  modelName :: string
  filterStats :: "FilterStats option"

record ReviewComment =
  path :: string
  position :: nat
  body :: string

text \<open>The two calls of the GitHub client that \<open>postReview\<close> can make.\<close>

datatype api_call =
  CreateComment (owner: string) (repo: string) (issue_number: int) (call_body: string)
| CreateReview (owner: string) (repo: string) (pull_number: int) (commit_id: string)
    (call_body: string) (event: string) (comments: "ReviewComment list")

text \<open>
  The constructor's \<^verbatim>\<open>filePatches\<close>: a \<^verbatim>\<open>Map\<close> from file name to patch, an absent
  patch stored as the empty string, a later file replacing an earlier one of the same
  name.
\<close>

fun filePatches_of :: "(string \<times> string option) list \<Rightarrow> (string \<rightharpoonup> string)" where
  "filePatches_of [] = Map.empty"
| "filePatches_of ((name, p) # fs) =
     (\<lambda>k. case filePatches_of fs k of
            Some later \<Rightarrow> Some later
          | None \<Rightarrow> if k = name then Some (case p of None \<Rightarrow> [] | Some t \<Rightarrow> t) else None)"

text \<open>The characters of the source outside ASCII, as the bytes of the source file.\<close>

definition robot :: string where "robot = [CHR 0xF0, CHR 0x9F, CHR 0xA4, CHR 0x96]"
definition bar_chart :: string where "bar_chart = [CHR 0xF0, CHR 0x9F, CHR 0x93, CHR 0x8A]"
definition red_circle :: string where "red_circle = [CHR 0xF0, CHR 0x9F, CHR 0x94, CHR 0xB4]"
definition yellow_circle :: string where "yellow_circle = [CHR 0xF0, CHR 0x9F, CHR 0x9F, CHR 0xA1]"
definition blue_circle :: string where "blue_circle = [CHR 0xF0, CHR 0x9F, CHR 0x94, CHR 0xB5]"
definition memo :: string where "memo = [CHR 0xF0, CHR 0x9F, CHR 0x93, CHR 0x9D]"
definition light_bulb :: string where "light_bulb = [CHR 0xF0, CHR 0x9F, CHR 0x92, CHR 0xA1]"

text \<open>
  The heading of the body and the coverage paragraph, which is written when statistics
  are given and some file was ignored or too large.
\<close>

definition coverage_text :: "FilterStats \<Rightarrow> string" where
  "coverage_text st =
     (let skipped =
            (if ignored st > 0 then [show_nat (ignored st) @ '' config/docs''] else []) @
            (if tooLarge st > 0 then [show_nat (tooLarge st) @ '' too large''] else [])
      in bar_chart @ '' **Coverage:** Reviewed '' @ show_nat (reviewed st) @ '' of ''
         @ show_nat (total st) @ '' files''
         @ (if length skipped > 0 then '' ('' @ join '', '' skipped @ '')'' else [])
         @ [newline, newline])"

definition body_head :: "PostReviewContext \<Rightarrow> nat \<Rightarrow> string" where
  "body_head ctx n =
     ''## '' @ robot @ '' AI Code Review ('' @ llmName ctx @ '' ('' @ modelName ctx @ ''))''
       @ [newline, newline]
     @ (case filterStats ctx of
          None \<Rightarrow> []
        | Some st \<Rightarrow> if ignored st > 0 \<or> tooLarge st > 0 then coverage_text st else [])
     @ ''Found '' @ show_nat n @ '' issue'' @ (if n \<noteq> 1 then ''s'' else []) @ '':''
       @ [newline, newline]"

text \<open>
  What the callback of each \<^verbatim>\<open>forEach\<close> appends for one finding; the four callbacks
  of the source are the same text. A line that is 0 and an empty suggestion are falsy
  and leave their part out. The line is written as the engine writes a number.
\<close>

definition finding_entry :: "js_engine \<Rightarrow> ReviewFinding \<Rightarrow> string" where
  "finding_entry E f =
     ''* **['' @ toUpperCase E (category f) @ '']** `'' @ filename f
       @ (case line f of
            None \<Rightarrow> []
          | Some n \<Rightarrow> if n = 0 then [] else '':'' @ ToString E (Num (of_int n)))
       @ ''`'' @ [newline]
     @ ''  '' @ message f @ [newline]
     @ (case suggestion f of
          None \<Rightarrow> []
        | Some sg \<Rightarrow> if sg = [] then [] else ''  '' @ light_bulb @ '' *'' @ sg @ ''*'' @ [newline])
     @ [newline]"

text \<open>A section: nothing for an empty bucket, else its title with the count and the entries.\<close>

definition section_text :: "js_engine \<Rightarrow> string \<Rightarrow> ReviewFinding list \<Rightarrow> string" where
  "section_text E title bucket =
     (if length bucket > 0
      then ''### '' @ title @ '' ('' @ show_nat (length bucket) @ '')'' @ [newline]
           @ concat (map (finding_entry E) bucket)
      else [])"

definition highFindings :: "ReviewFinding list \<Rightarrow> ReviewFinding list" where
  "highFindings findings = filter (\<lambda>f. severity f = Some ''high'') findings"

definition mediumFindings :: "ReviewFinding list \<Rightarrow> ReviewFinding list" where
  "mediumFindings findings = filter (\<lambda>f. severity f = Some ''medium'') findings"

definition lowFindings :: "ReviewFinding list \<Rightarrow> ReviewFinding list" where
  "lowFindings findings = filter (\<lambda>f. severity f = Some ''low'') findings"

definition otherFindings :: "ReviewFinding list \<Rightarrow> ReviewFinding list" where
  "otherFindings findings =
     filter (\<lambda>f. (severity f = None \<or> severity f = Some [])
                \<or> (severity f \<noteq> Some ''high'' \<and> severity f \<noteq> Some ''medium''
                    \<and> severity f \<noteq> Some ''low'')) findings"

definition review_body :: "js_engine \<Rightarrow> PostReviewContext \<Rightarrow> ReviewFinding list \<Rightarrow> string" where
  "review_body E ctx findings =
     body_head ctx (length findings)
     @ section_text E (red_circle @ '' High Priority'') (highFindings findings)
     @ section_text E (yellow_circle @ '' Medium Priority'') (mediumFindings findings)
     @ section_text E (blue_circle @ '' Low Priority'') (lowFindings findings)
     @ section_text E (memo @ '' Other Issues'') (otherFindings findings)"

text \<open>
  The inline comment of a finding with line \<open>lnum\<close>, or \<open>None\<close> (\<^verbatim>\<open>null\<close>) when the file
  has no patch (an empty patch is falsy), the line is not positive, or the position
  is not found.
\<close>

definition comment_text :: "js_engine \<Rightarrow> ReviewFinding \<Rightarrow> string" where
  "comment_text E f =
     ''**['' @ (case severity f of
                  None \<Rightarrow> ''ISSUE''
                | Some sv \<Rightarrow> if toUpperCase E sv = [] then ''ISSUE'' else toUpperCase E sv)
       @ '' - '' @ toUpperCase E (category f) @ '']** '' @ message f @ [newline, newline]
     @ light_bulb @ '' *Suggestion*: ''
     @ (case suggestion f of
          None \<Rightarrow> ''Review and address this issue.''
        | Some sg \<Rightarrow> if sg = [] then ''Review and address this issue.'' else sg)"

definition inline_comment ::
  "js_engine \<Rightarrow> (string \<rightharpoonup> string) \<Rightarrow> ReviewFinding \<Rightarrow> int \<Rightarrow> ReviewComment option" where
  "inline_comment E filePatches f lnum =
     (case filePatches (filename f) of
        None \<Rightarrow> None
      | Some patch \<Rightarrow>
          if patch = [] then None
          else if lnum \<le> 0 then None
          else (case getPositionInDiff patch lnum of
                  None \<Rightarrow> None
                | Some pos \<Rightarrow> Some \<lparr>path = filename f, position = pos, body = comment_text E f\<rparr>))"

text \<open>
  \<^verbatim>\<open>findings.filter(...).map(...).filter(...)\<close>: the findings that have a line, each
  mapped to its comment or \<^verbatim>\<open>null\<close>, the \<^verbatim>\<open>null\<close>s dropped.
\<close>

definition inline_comments ::
  "js_engine \<Rightarrow> (string \<rightharpoonup> string) \<Rightarrow> ReviewFinding list \<Rightarrow> ReviewComment list" where
  "inline_comments E filePatches findings =
     List.map_filter
       (\<lambda>f. case line f of None \<Rightarrow> None | Some lnum \<Rightarrow> inline_comment E filePatches f lnum)
       findings"

text \<open>
  \<open>postReview\<close>: the call made to GitHub, or \<open>None\<close> when it returns without one.
\<close>

definition postReview ::
  "js_engine \<Rightarrow> PostReviewContext \<Rightarrow> (string \<rightharpoonup> string) \<Rightarrow> string \<Rightarrow> string \<Rightarrow> int \<Rightarrow> string
   \<Rightarrow> ReviewFinding list \<Rightarrow> api_call option" where
  "postReview E ctx filePatches own repoName prNumber sha findings =
     (let text = review_body E ctx findings;
          cs = inline_comments E filePatches findings
      in if length cs = 0 \<and> length findings > 0 then
           Some (CreateComment own repoName prNumber text)
         else if length cs = 0 \<and> length findings = 0 then None
         else Some (CreateReview own repoName prNumber sha text
                      (if length (highFindings findings) > 0 then ''REQUEST_CHANGES'' else ''COMMENT'')
                      cs))"

text \<open>
  The severity buckets and the resolvable findings in the words of the specification:
  each finding falls in one bucket, and a finding has an inline comment when it has a
  line, its file has a patch, the line is positive and the resolver finds a position,
  which \<open>resolved_position\<close> gives.
\<close>

datatype bucket = High | Medium | Low | Unspecified

definition bucket_of :: "ReviewFinding \<Rightarrow> bucket" where
  "bucket_of f =
     (if severity f = Some ''high'' then High
      else if severity f = Some ''medium'' then Medium
      else if severity f = Some ''low'' then Low
      else Unspecified)"

definition resolvable :: "(string \<rightharpoonup> string) \<Rightarrow> ReviewFinding \<Rightarrow> bool" where
  "resolvable filePatches f =
     (case line f of
        None \<Rightarrow> False
      | Some lnum \<Rightarrow>
          (case filePatches (filename f) of
             None \<Rightarrow> False
           | Some patch \<Rightarrow> 0 < lnum \<and> getPositionInDiff patch lnum \<noteq> None))"

definition resolved_position :: "(string \<rightharpoonup> string) \<Rightarrow> ReviewFinding \<Rightarrow> nat option" where
  "resolved_position filePatches f =
     Option.bind (line f) (\<lambda>lnum.
     Option.bind (filePatches (filename f)) (\<lambda>patch. getPositionInDiff patch lnum))"

section \<open>\<^verbatim>\<open>ReviewEngine.postReview\<close>\<close>

text \<open>
  The finding of \<^verbatim>\<open>review-engine.ts\<close>: only the line is optional. The names carry a
  prime to keep them apart from those of \<open>ReviewEngineCore\<close>.
\<close>

record ReviewFinding' =
  severity' :: string
  category' :: string
  filename' :: string
  line' :: "int option"
  message' :: string
  suggestion' :: string

record LineComment =
  path' :: string
  line_no :: int
  body' :: string

datatype engine_call =
  PullsCreateReview (owner': string) (repo': string) (pull_number': int) (commit_id': string)
    (call_body': string) (event': string) (comments': "LineComment list")
| IssuesCreateComment (owner': string) (repo': string) (issue_number': int) (call_body': string)

definition bug_emoji :: string where "bug_emoji = [CHR 0xF0, CHR 0x9F, CHR 0x90, CHR 0x9B]"
definition lock_emoji :: string where "lock_emoji = [CHR 0xF0, CHR 0x9F, CHR 0x94, CHR 0x92]"
definition zap_emoji :: string where "zap_emoji = [CHR 0xE2, CHR 0x9A, CHR 0xA1]"
definition art_emoji :: string where "art_emoji = [CHR 0xF0, CHR 0x9F, CHR 0x8E, CHR 0xA8]"
definition sparkles_emoji :: string where "sparkles_emoji = [CHR 0xE2, CHR 0x9C, CHR 0xA8]"
definition pin_emoji :: string where "pin_emoji = [CHR 0xF0, CHR 0x9F, CHR 0x93, CHR 0x8C]"

text \<open>The keys that the two lookup tables define themselves.\<close>

definition severityEmoji :: "(string \<times> string) list" where
  "severityEmoji =
     [(''high'', red_circle), (''medium'', yellow_circle), (''low'', blue_circle)]"

definition categoryEmoji :: "(string \<times> string) list" where
  "categoryEmoji =
     [(''bug'', bug_emoji), (''security'', lock_emoji), (''performance'', zap_emoji),
      (''style'', art_emoji), (''best-practice'', sparkles_emoji)]"

text \<open>
  \<^verbatim>\<open>table[key]\<close> as a template literal writes it. The tables are plain objects: a key
  that the table does not define is looked up in \<^verbatim>\<open>Object.prototype\<close>, whose values
  are functions and objects, all truthy, written as the engine writes them. A key
  found in neither gives \<^verbatim>\<open>undefined\<close> (\<open>None\<close>).
\<close>

definition lookup_text :: "js_engine \<Rightarrow> (string \<times> string) list \<Rightarrow> string \<Rightarrow> string option" where
  "lookup_text E table k =
     (case map_of table k of
        Some e \<Rightarrow> Some e
      | None \<Rightarrow> inherited_text E k)"

text \<open>
  The emoji of a finding: \<^verbatim>\<open>undefined\<close> is written as that word for the severity, and
  is replaced by the pin for the category.
\<close>

definition emoji_of :: "js_engine \<Rightarrow> ReviewFinding' \<Rightarrow> string" where
  "emoji_of E finding =
     (case lookup_text E severityEmoji (severity' finding) of None \<Rightarrow> ''undefined'' | Some e \<Rightarrow> e)
     @ '' ''
     @ (case lookup_text E categoryEmoji (category' finding) of None \<Rightarrow> pin_emoji | Some e \<Rightarrow> e)"

definition line_comment :: "js_engine \<Rightarrow> ReviewFinding' \<Rightarrow> int \<Rightarrow> LineComment" where
  "line_comment E finding lnum =
     \<lparr>path' = filename' finding, line_no = lnum,
      body' = emoji_of E finding @ '' **'' @ toUpperCase E (severity' finding) @ ''** - ''
              @ category' finding @ [newline, newline] @ message' finding @ [newline, newline]
              @ light_bulb @ '' **Suggestion:** '' @ suggestion' finding\<rparr>"

definition finding_section :: "js_engine \<Rightarrow> ReviewFinding' \<Rightarrow> string" where
  "finding_section E finding =
     ''### '' @ emoji_of E finding @ '' '' @ filename' finding
     @ (case line' finding of
          None \<Rightarrow> []
        | Some lnum \<Rightarrow>
            if lnum = 0 then [] else '' (line '' @ ToString E (Num (of_int lnum)) @ '')'')
     @ [newline] @ ''**Issue:** '' @ message' finding @ [newline]
     @ ''**Fix:** '' @ suggestion' finding @ [newline, newline]"

text \<open>
  The \<^verbatim>\<open>for\<close> loop over the findings, on the text and the comments built so far: a
  finding with a line that is not 0 pushes a comment, and every finding appends its
  section.
\<close>

fun review_loop ::
  "js_engine \<Rightarrow> ReviewFinding' list \<Rightarrow> string \<Rightarrow> LineComment list \<Rightarrow> string \<times> LineComment list" where
  "review_loop E [] text cs = (text, cs)"
| "review_loop E (finding # rest) text cs =
     review_loop E rest (text @ finding_section E finding)
       (case line' finding of
          None \<Rightarrow> cs
        | Some lnum \<Rightarrow> if lnum = 0 then cs else cs @ [line_comment E finding lnum])"

text \<open>
  \<open>postReview\<close>: the calls made, in order, the text starting with the heading and the
  count of findings. \<open>review_fails\<close> says whether \<^verbatim>\<open>pulls.createReview\<close> throws; then
  the text goes out as an issue comment.
\<close>

definition review_head :: "string \<Rightarrow> nat \<Rightarrow> string" where
  "review_head model n =
     ''## '' @ robot @ '' AI Code Review ('' @ model @ '')'' @ [newline, newline]
     @ ''Found '' @ show_nat n @ '' issue'' @ (if n > 1 then ''s'' else []) @ '':''
     @ [newline, newline]"

definition postReview' ::
  "js_engine \<Rightarrow> string \<Rightarrow> bool \<Rightarrow> string \<Rightarrow> string \<Rightarrow> int \<Rightarrow> string \<Rightarrow> ReviewFinding' list
   \<Rightarrow> engine_call list" where
  "postReview' E model review_fails own rp prNumber commitSha findings =
     (let (text, cs) = review_loop E findings (review_head model (length findings)) []
      in PullsCreateReview own rp prNumber commitSha text ''COMMENT'' (take 30 cs)
         # (if review_fails then [IssuesCreateComment own rp prNumber text] else []))"

text \<open>
  The comments of the findings that have a line other than 0, in the order of the
  findings: what the loop has pushed when it ends.
\<close>

definition line_comments :: "js_engine \<Rightarrow> ReviewFinding' list \<Rightarrow> LineComment list" where
  "line_comments E findings =
     List.map_filter
       (\<lambda>f. case line' f of
              None \<Rightarrow> None
            | Some lnum \<Rightarrow> if lnum = 0 then None else Some (line_comment E f lnum))
       findings"

section \<open>\<^verbatim>\<open>parseLLMResponse\<close>\<close>

text \<open>
  The fenced block, \<^verbatim>\<open>/```(?:json)?\s*\n?([\s\S]*?)\n?```/\<close>, group 1. After the opening
  fence the pattern takes \<^verbatim>\<open>json\<close> when it is there and then all white space, so
  nothing is left for the first \<^verbatim>\<open>\n?\<close>. The group is lazy: it ends at the first place
  where a closing fence, or a line feed and a closing fence, follows. Taking less at
  the start would not find a closing fence where taking all finds none, since the
  characters given back are no backticks; so the first choice is the only one to try.
\<close>

fun lazy_until_fence :: "string \<Rightarrow> string option" where
  "lazy_until_fence [] = None"
| "lazy_until_fence (c # cs) =
     (if startsWith (c # cs) (newline # ''```'') \<or> startsWith (c # cs) ''```'' then Some []
      else map_option ((#) c) (lazy_until_fence cs))"

definition fence_at :: "string \<Rightarrow> string option" where
  "fence_at s =
     (case expect ''```'' s of
        None \<Rightarrow> None
      | Some s1 \<Rightarrow>
          lazy_until_fence
            (strip white_space (case expect ''json'' s1 of Some s2 \<Rightarrow> s2 | None \<Rightarrow> s1)))"

fun fence_match :: "string \<Rightarrow> string option" where
  "fence_match [] = None"
| "fence_match (c # cs) =
     (case fence_at (c # cs) of
        Some g \<Rightarrow> Some g
      | None \<Rightarrow> fence_match cs)"

text \<open>The record returned when nothing parses.\<close>

definition fallback :: "string \<Rightarrow> jsval" where
  "fallback d =
     Obj [(''confidence'', Str ''low''), (''fixType'', Str ''suggestion''),
          (''description'', Str d), (''fileChanges'', Str [])]"

text \<open>
  The inner \<^verbatim>\<open>try\<close> block: the fenced block when there is one with a group that is
  not empty, else the span of braces, else the fallback with the trimmed text. A
  failing \<^verbatim>\<open>JSON.parse\<close> throws out of the block.
\<close>

definition extract_json :: "js_engine \<Rightarrow> string \<Rightarrow> exn + jsval" where
  "extract_json E s =
     (case (case fence_match s of None \<Rightarrow> None | Some g \<Rightarrow> if g = [] then None else Some g) of
        Some g \<Rightarrow> JSON_parse E (trim g)
      | None \<Rightarrow>
          (case span_match (CHR ''{'') (CHR ''}'') s of
             Some m \<Rightarrow> JSON_parse E m
           | None \<Rightarrow> Inr (fallback (trim s))))"

text \<open>
  \<open>parseLLMResponse\<close>. The parameter is declared a string; on another value
  \<^verbatim>\<open>JSON.parse\<close> converts it, and when that fails both \<^verbatim>\<open>match\<close> and, in the handler,
  \<^verbatim>\<open>trim\<close> are missing, so the \<^verbatim>\<open>TypeError\<close> of \<^verbatim>\<open>trim\<close> leaves the function.
\<close>

definition parseLLMResponse :: "js_engine \<Rightarrow> jsval \<Rightarrow> exn + jsval" where
  "parseLLMResponse E responseText =
     (case JSON_parse E (as_text E responseText) of
        Inr v \<Rightarrow> Inr v
      | Inl firstError \<Rightarrow>
          (case responseText of
             Str s \<Rightarrow>
               (case extract_json E s of
                  Inr v \<Rightarrow> Inr v
                | Inl extractError \<Rightarrow>
                    Inr (fallback (if trim s = [] then ''No solution generated'' else trim s)))
           | _ \<Rightarrow> Inl (type_error E ''trim'')))"

text \<open>
  The three structured attempts all fail on a text: it does not parse, it has no
  fenced block whose content parses, and no span of braces that parses.
\<close>

definition attempts_fail :: "js_engine \<Rightarrow> string \<Rightarrow> bool" where
  "attempts_fail E s =
     (isl (JSON_parse E s)
      \<and> (case fence_match s of None \<Rightarrow> True | Some g \<Rightarrow> g = [] \<or> isl (JSON_parse E (trim g)))
      \<and> (case span_match (CHR ''{'') (CHR ''}'') s of
            None \<Rightarrow> True
          | Some m \<Rightarrow> isl (JSON_parse E m)))"

text \<open>
  The texts that the attempts hand to \<^verbatim>\<open>JSON.parse\<close>, with what it gives for each:
  the whole text, the trimmed content of the fenced block when there is one that is
  not empty, and the span of braces.
\<close>

definition parse_attempts :: "js_engine \<Rightarrow> string \<Rightarrow> (exn + jsval) list" where
  "parse_attempts E s =
     [JSON_parse E s]
     @ (case fence_match s of
          None \<Rightarrow> []
        | Some g \<Rightarrow> if g = [] then [] else [JSON_parse E (trim g)])
     @ (case span_match (CHR ''{'') (CHR ''}'') s of
          None \<Rightarrow> []
        | Some m \<Rightarrow> [JSON_parse E m])"

text \<open>
  A result is usable when its fields can be read, as the caller does at once: it is
  neither \<^verbatim>\<open>null\<close> nor \<^verbatim>\<open>undefined\<close>.
\<close>

definition usable :: "jsval \<Rightarrow> bool" where
  "usable v = (v \<noteq> Null \<and> v \<noteq> Undefined)"

section \<open>\<^verbatim>\<open>ReviewEngine.parseReviewResponse\<close>\<close>

text \<open>
  \<^verbatim>\<open>s.replace(/p\n?/g, '')\<close> for a literal \<open>p\<close> that is not empty: every occurrence of
  \<open>p\<close>, with the line feed after it when there is one, is removed, searching on after
  each. \<open>skip\<close> counts the characters of the last occurrence that lie ahead.
\<close>

fun remove_each :: "string \<Rightarrow> nat \<Rightarrow> string \<Rightarrow> string" where
  "remove_each p skip [] = []"
| "remove_each p (Suc skip) (c # cs) = remove_each p skip cs"
| "remove_each p 0 (c # cs) =
     (if startsWith (c # cs) p
      then remove_each p
             (length p - 1 + (if startsWith (drop (length p) (c # cs)) [newline] then 1 else 0)) cs
      else c # remove_each p 0 cs)"

text \<open>The test of the \<^verbatim>\<open>filter\<close> callback on one candidate.\<close>

definition falsy_prop :: "js_engine \<Rightarrow> jsval \<Rightarrow> string \<Rightarrow> exn + bool" where
  "falsy_prop E f k = (case get_prop E f k of Inl e \<Rightarrow> Inl e | Inr v \<Rightarrow> Inr (\<not> truthy v))"

text \<open>\<^verbatim>\<open>a || b\<close> on tests that may throw: \<open>b\<close> is only evaluated when \<open>a\<close> is false.\<close>

definition or_else :: "exn + bool \<Rightarrow> exn + bool \<Rightarrow> exn + bool" where
  "or_else a b = (case a of Inl e \<Rightarrow> Inl e | Inr x \<Rightarrow> if x then Inr True else b)"

definition valid_finding :: "js_engine \<Rightarrow> jsval \<Rightarrow> exn + bool" where
  "valid_finding E f =
     (case or_else (falsy_prop E f ''severity'')
             (or_else (falsy_prop E f ''category'')
               (or_else (falsy_prop E f ''filename'')
                 (or_else (falsy_prop E f ''message'') (falsy_prop E f ''suggestion'')))) of
        Inl e \<Rightarrow> Inl e
      | Inr missing \<Rightarrow>
          if missing then Inr False
          else (case get_prop E f ''severity'' of
                  Inl e \<Rightarrow> Inl e
                | Inr sv \<Rightarrow> Inr (sv \<in> set [Str ''high'', Str ''medium''])))"

text \<open>\<^verbatim>\<open>findings.filter(f => ...)\<close>, with a callback that may throw.\<close>

fun validFindings :: "js_engine \<Rightarrow> jsval list \<Rightarrow> exn + jsval list" where
  "validFindings E [] = Inr []"
| "validFindings E (f # fs) =
     (case valid_finding E f of
        Inl e \<Rightarrow> Inl e
      | Inr keep \<Rightarrow>
          (case validFindings E fs of
             Inl e \<Rightarrow> Inl e
           | Inr rest \<Rightarrow> Inr (if keep then f # rest else rest)))"

text \<open>
  \<open>parseReviewResponse\<close>: the \<^verbatim>\<open>try\<close> block, and the handler that returns the empty
  list for whatever is thrown.
\<close>

definition review_findings :: "js_engine \<Rightarrow> string \<Rightarrow> exn + jsval list" where
  "review_findings E response =
     (let cleaned = trim (remove_each ''```'' 0 (remove_each ''```json'' 0 (trim response)))
      in case span_match (CHR ''['') (CHR '']'') cleaned of
           None \<Rightarrow> Inr []
         | Some m \<Rightarrow>
             (case JSON_parse E m of
                Inl e \<Rightarrow> Inl e
              | Inr (Arr findings) \<Rightarrow> validFindings E findings
              | Inr v \<Rightarrow> Inr []))"

definition parseReviewResponse :: "js_engine \<Rightarrow> string \<Rightarrow> jsval list" where
  "parseReviewResponse E response =
     (case review_findings E response of Inl e \<Rightarrow> [] | Inr fs \<Rightarrow> fs)"

text \<open>
  The classifier in the words of the specification: a candidate is kept when its five
  fields are all defined. And in the words of the amended claim: when they are all
  truthy and the severity is \<^verbatim>\<open>high\<close> or \<^verbatim>\<open>medium\<close>.
\<close>

definition field_of :: "jsval \<Rightarrow> string \<Rightarrow> jsval" where
  "field_of f k = (case f of Obj kvs \<Rightarrow> (case map_of kvs k of None \<Rightarrow> Undefined | Some v \<Rightarrow> v)
                | _ \<Rightarrow> Undefined)"

definition all_defined :: "jsval \<Rightarrow> bool" where
  "all_defined f =
     list_all (\<lambda>k. field_of f k \<noteq> Undefined)
       [''severity'', ''category'', ''filename'', ''message'', ''suggestion'']"

definition all_truthy_and_severe :: "jsval \<Rightarrow> bool" where
  "all_truthy_and_severe f =
     (list_all (\<lambda>k. truthy (field_of f k))
        [''severity'', ''category'', ''filename'', ''message'', ''suggestion'']
      \<and> (field_of f ''severity'' = Str ''high'' \<or> field_of f ''severity'' = Str ''medium''))"

section \<open>\<^verbatim>\<open>ApiProviderBase.generateReview\<close>\<close>














section \<open>\<^verbatim>\<open>analyzeWithAnalyser\<close>\<close>

text \<open>
  The types of \<^verbatim>\<open>../types\<close> are read off their use. The fields of an error carry a
  prefix to keep them apart from those of a finding. The fields of a \<open>FixResult\<close>
  hold whatever the parsed response gives, so they are values.
\<close>

record TsError =
  err_file :: string
  err_line :: int
  err_message :: string

record ErrorGroup =
  code :: string
  pattern :: string
  count :: nat
  errors :: "TsError list"

record Config =
  engine :: string
  model :: "string option"
  ollamaHost :: string
  maxGroups :: nat
  errorsPath :: string
  outputJsonPath :: string
  outputTxtPath :: string
  streaming :: bool

record FixResult =
  confidence :: jsval
  fixType :: jsval
  description :: jsval
  fileChanges :: jsval
  commands :: jsval
  manualSteps :: jsval







text \<open>\<^verbatim>\<open>parsed.k || d\<close>\<close>

definition or_default :: "js_engine \<Rightarrow> jsval \<Rightarrow> string \<Rightarrow> jsval \<Rightarrow> exn + jsval" where
  "or_default E parsed k d =
     (case get_prop E parsed k of Inl e \<Rightarrow> Inl e | Inr v \<Rightarrow> Inr (if truthy v then v else d))"

definition build_fix :: "js_engine \<Rightarrow> ErrorGroup \<Rightarrow> jsval \<Rightarrow> jsval \<Rightarrow> exn + FixResult" where
  "build_fix E g raw parsed =
     (case or_default E parsed ''confidence'' (Str ''medium'') of Inl e \<Rightarrow> Inl e | Inr c \<Rightarrow>
      case or_default E parsed ''fixType'' (Str ''suggestion'') of Inl e \<Rightarrow> Inl e | Inr t \<Rightarrow>
      case or_default E parsed ''description'' raw of Inl e \<Rightarrow> Inl e | Inr d \<Rightarrow>
      case or_default E parsed ''fileChanges'' (Str (join '', '' (map err_file (errors g)))) of
        Inl e \<Rightarrow> Inl e | Inr fc \<Rightarrow>
      case or_default E parsed ''commands'' (Arr []) of Inl e \<Rightarrow> Inl e | Inr cm \<Rightarrow>
      case or_default E parsed ''manualSteps'' (Arr []) of Inl e \<Rightarrow> Inl e | Inr ms \<Rightarrow>
        Inr \<lparr>confidence = c, fixType = t, description = d, fileChanges = fc,
             commands = cm, manualSteps = ms\<rparr>)"





section \<open>Example inputs\<close>

text \<open>
  A review of the file \<^verbatim>\<open>a.ts\<close>, whose patch is that of the scenario, with one
  finding on line 2, which the patch holds, and one on line 5, which it does not.
\<close>

definition example_context :: PostReviewContext where
  "example_context =
     \<lparr>llmName = ''ollama'', modelName = ''codellama'',
      filterStats = Some \<lparr>ignored = 1, tooLarge = 0, reviewed = 1, total = 2\<rparr>\<rparr>"

definition example_patches :: "string \<rightharpoonup> string" where
  "example_patches = filePatches_of [(''a.ts'', Some scenario_patch)]"

definition finding_on_line_2 :: ReviewFinding where
  "finding_on_line_2 =
     \<lparr>severity = Some ''medium'', category = ''style'', filename = ''a.ts'', line = Some 2,
      message = ''Unclear name'', suggestion = Some ''Rename it''\<rparr>"

definition finding_on_line_5 :: ReviewFinding where
  "finding_on_line_5 =
     \<lparr>severity = Some ''high'', category = ''bug'', filename = ''a.ts'', line = Some 5,
      message = ''Null dereference'', suggestion = None\<rparr>"

definition engine_finding :: ReviewFinding' where
  "engine_finding =
     \<lparr>severity' = ''high'', category' = ''bug'', filename' = ''a.ts'', line' = Some 2,
      message' = ''Null dereference'', suggestion' = ''Check for null''\<rparr>"

definition constructor_finding :: ReviewFinding' where
  "constructor_finding =
     \<lparr>severity' = ''high'', category' = ''constructor'', filename' = ''b.ts'', line' = None,
      message' = ''Throws in the constructor'', suggestion' = ''Validate first''\<rparr>"

text \<open>
  An engine for the examples. Its parser knows four documents: the object of the
  fenced example, a chat completion whose message has no content, an answer of the
  local server, and \<^verbatim>\<open>null\<close>. Every other text is a syntax error. It writes whole
  numbers in decimal digits, maps the letters \<^verbatim>\<open>a\<close> to \<^verbatim>\<open>z\<close> to upper case, and knows
  two names of \<^verbatim>\<open>Object.prototype\<close>.
\<close>

definition upper_char :: "char \<Rightarrow> char" where
  "upper_char c =
     (if 97 \<le> (of_char c :: nat) \<and> (of_char c :: nat) \<le> 122
      then char_of ((of_char c :: nat) - 32) else c)"

definition fenced_document :: string where
  \<open>fenced_document = ''{"a":1}''\<close>

definition chat_document :: string where
  \<open>chat_document = ''{"choices":[{"message":{"role":"assistant"}}]}''\<close>

definition ollama_document :: string where
  \<open>ollama_document = ''{"response":"Add a null check"}''\<close>

definition example_documents :: "(string \<times> jsval) list" where
  "example_documents =
     [(fenced_document, Obj [(''a'', Num 1)]),
      (chat_document,
       Obj [(''choices'', Arr [Obj [(''message'', Obj [(''role'', Str ''assistant'')])]])]),
      (ollama_document, Obj [(''response'', Str ''Add a null check'')]),
      (''null'', Null)]"

definition example_engine :: js_engine where
  "example_engine =
     \<lparr>JSON_parse =
        (\<lambda>s. case map_of example_documents s of
               Some v \<Rightarrow> Inr v
             | None \<Rightarrow> Inl (Exn ''SyntaxError'' ''Unexpected token'')),
      JSON_stringify =
        (\<lambda>v. case map_of (map (\<lambda>(s, w). (w, s)) example_documents) v of
               Some s \<Rightarrow> s
             | None \<Rightarrow> ''null''),
      ToString =
        (\<lambda>v. case v of Num r \<Rightarrow> show_int \<lfloor>r\<rfloor> | Str s \<Rightarrow> s | _ \<Rightarrow> ''[object Object]''),
      greater_than_zero = (\<lambda>v. case v of Num r \<Rightarrow> 0 < r | _ \<Rightarrow> False),
      replace_each = (\<lambda>p r s. s),
      type_error = (\<lambda>k. Exn ''TypeError'' (''Cannot read property '' @ k)),
      toUpperCase = map upper_char,
      inherited_text =
        map_of [(''constructor'', ''function Object() { [native code] }''),
                (''toString'', ''function toString() { [native code] }'')]\<rparr>"

text \<open>
  Candidates of the classifier: one complete, one whose suggestion is the empty
  string, one of severity \<^verbatim>\<open>low\<close>.
\<close>

definition candidate :: "string \<Rightarrow> string \<Rightarrow> jsval" where
  "candidate sv sg =
     Obj [(''severity'', Str sv), (''category'', Str ''bug''), (''filename'', Str ''a.ts''),
          (''message'', Str ''Null dereference''), (''suggestion'', Str sg)]"






definition group_a :: ErrorGroup where
  "group_a =
     \<lparr>code = ''TS2322'', pattern = ''Type mismatch'', count = 1,
      errors = [\<lparr>err_file = ''a.ts'', err_line = 3, err_message = ''Type mismatch''\<rparr>]\<rparr>"



section \<open>The loop reads the text as the walk does\<close>

lemma startsWith_prefix: "startsWith s p = prefix p s"
  unfolding startsWith_def prefix_def
  by (metis append_eq_conv_conj append_take_drop_id)

lemma text_lines_nonempty: "text_lines s \<noteq> []"
  by (induction s) (simp_all add: text_lines_def)

lemma split_lines_text_lines: "split_lines s = text_lines s"
proof (induction s)
  case Nil
  show ?case by (simp add: text_lines_def)
next
  case (Cons c cs)
  obtain l ls where "text_lines cs = l # ls"
    using text_lines_nonempty [of cs] by (cases "text_lines cs") auto
  with Cons show ?case by (simp add: text_lines_def newline_def)
qed

lemma expect_after: "expect lit s = after lit s"
  by (simp add: expect_def after_def startsWith_prefix)

lemma digit_of_is_digit: "(digit_of c \<noteq> None) = is_digit c"
  by (auto simp: digit_of_def is_digit_def)

lemma digit_of_digit_val: "is_digit c \<Longrightarrow> digit_of c = Some (digit_val c)"
  by (auto simp: digit_of_def is_digit_def digit_val_def)

lemma digits_value:
  "\<forall>c\<in>set ds. is_digit c \<Longrightarrow> foldl (\<lambda>acc c. 10 * acc + digit_val c) 0 ds = decimal ds"
  by (induction ds rule: rev_induct) (simp_all add: decimal_def digit_of_digit_val)

lemma digit_of_nonneg: "digit_of c = Some v \<Longrightarrow> 0 \<le> v"
  by (auto simp: digit_of_def split: if_splits)

lemma units_first_nonneg: "0 \<le> units_first ds"
  by (induction ds) (auto split: option.splits dest: digit_of_nonneg)

lemma decimal_nonneg: "0 \<le> decimal ds"
  by (simp add: decimal_def units_first_nonneg)

lemma number_then_digits1:
  "number_then s = map_option (\<lambda>(d, r). (decimal d, r)) (digits1 s)"
proof -
  have eq: "(\<lambda>c. digit_of c \<noteq> None) = is_digit" by (rule ext) (rule digit_of_is_digit)
  show ?thesis unfolding number_then_def eq by (simp add: digits1_def Let_def)
qed

lemma digits1_digits: "digits1 s = Some (d, r) \<Longrightarrow> \<forall>c\<in>set d. is_digit c"
  by (auto simp: digits1_def split: if_splits dest: set_takeWhileD)

lemma parseInt_decimal: "\<forall>c\<in>set d. is_digit c \<Longrightarrow> parseInt d = to_number (decimal d)"
  by (simp add: parseInt_def digits_value)

text \<open>
  The pattern of the loop, tried at the start of a text, reads what \<open>header_text\<close>
  reads there.
\<close>

lemma start_match_at_digits: "start_match_at s = Some d \<Longrightarrow> \<forall>c\<in>set d. is_digit c"
  by (auto simp: start_match_at_def Option.bind_eq_Some_conv dest: digits1_digits)

lemma start_match_at_header_text:
  "map_option decimal (start_match_at s) = map_option fst (header_text s)"
  unfolding start_match_at_def header_text_def expect_after number_then_digits1
  by (auto split: Option.bind_splits option.splits prod.splits)

lemma rev_suffixes_Cons: "rev (suffixes (c # cs)) = (c # cs) # rev (suffixes cs)"
  by simp

lemma header_text_Nil: "header_text [] = None"
  by (simp add: header_text_def after_def)

lemma start_match_digits: "start_match l = Some d \<Longrightarrow> \<forall>c\<in>set d. is_digit c"
proof (induction l)
  case Nil
  then show ?case by simp
next
  case (Cons c cs)
  then show ?case
    by (cases "start_match_at (c # cs)") (auto dest: start_match_at_digits)
qed

lemma start_match_first_some:
  "map_option decimal (start_match l) = map_option fst (first_some (map header_text (rev (suffixes l))))"
proof (induction l)
  case Nil
  show ?case by (simp add: header_text_Nil)
next
  case (Cons c cs)
  show ?case
  proof (cases "start_match_at (c # cs)")
    case None
    with start_match_at_header_text [of "c # cs"] have "header_text (c # cs) = None" by simp
    with None Cons show ?thesis by (simp only: rev_suffixes_Cons) simp
  next
    case (Some d)
    with start_match_at_header_text [of "c # cs"] obtain r where "header_text (c # cs) = Some (decimal d, r)"
      by (cases "header_text (c # cs)") auto
    with Some show ?thesis by (simp only: rev_suffixes_Cons) simp
  qed
qed

text \<open>
  On a line that begins with \<^verbatim>\<open>@@\<close> the loop reads the digits of the number that
  \<open>header_start\<close> gives; on any other line \<open>header_start\<close> gives nothing.
\<close>

lemma start_match_header_start:
  "startsWith l ''@@'' \<Longrightarrow> map_option decimal (start_match l) = header_start l"
  by (simp add: header_start_def read_header_def startsWith_prefix start_match_first_some)

lemma header_start_no_header: "\<not> startsWith l ''@@'' \<Longrightarrow> header_start l = None"
  by (simp add: header_start_def read_header_def startsWith_prefix)

lemma header_not_advances: "prefix ''@@'' l \<Longrightarrow> \<not> advances l"
  by (cases l) (auto simp: advances_def)

lemma header_start_not_advances: "header_start l = Some n \<Longrightarrow> \<not> advances l"
  by (cases "prefix ''@@'' l") (auto simp: header_start_def read_header_def header_not_advances)

lemma advances_startsWith: "advances l = (startsWith l ''+'' \<or> startsWith l '' '')"
  by (simp add: advances_def startsWith_prefix)

lemma header_text_nonneg: "header_text s = Some (n, r) \<Longrightarrow> 0 \<le> n"
  by (auto simp: header_text_def number_then_def Let_def Option.bind_eq_Some_conv decimal_nonneg
      split: if_splits)

lemma first_some_mem: "first_some xs = Some v \<Longrightarrow> Some v \<in> set xs"
  by (induction xs) (auto split: option.splits)

lemma header_start_nonneg: "header_start l = Some n \<Longrightarrow> 0 \<le> n"
proof -
  assume "header_start l = Some n"
  then obtain r where "first_some (map header_text (rev (suffixes l))) = Some (n, r)"
    by (auto simp: header_start_def read_header_def split: if_splits)
  then obtain x where "header_text x = Some (n, r)"
    by (auto dest!: first_some_mem)
  then show ?thesis by (rule header_text_nonneg)
qed

section \<open>Whole numbers that are exact\<close>

lemma round53_1: "round53 1 = 1"
  by code_simp

lemma round_int_exact: "- 1 \<le> x \<Longrightarrow> x \<le> 9007199254740992 \<Longrightarrow> round_int x = Finite x"
proof -
  assume a: "- 1 \<le> x" "x \<le> 9007199254740992"
  show ?thesis
  proof (cases "0 \<le> x")
    case True
    with a show ?thesis by (simp add: round_int_def to_number_def)
  next
    case False
    with a have "x = - 1" by simp
    then show ?thesis by (simp add: round_int_def round53_1)
  qed
qed

lemma amended_new_line_lower: "- 1 \<le> amended_new_line xs"
proof (induction xs)
  case Nil
  show ?case by simp
next
  case (Cons l earlier)
  then show ?case
    by (cases "header_start l") (auto dest: header_start_nonneg)
qed

text \<open>
  While the starts that are read and the new-file line of the walk stay within
  \<open>2^53\<close>, the loop computes in doubles what it would compute in whole numbers; \<open>pre\<close>
  holds the lines already visited.
\<close>

lemma scan_lines_exact:
  "(\<forall>l\<in>set rest. \<forall>n. header_start l = Some n \<longrightarrow> n \<le> 9007199254740992) \<Longrightarrow>
   (\<forall>k\<le>length rest. amended_new_line (rev (pre @ take k rest)) \<le> 9007199254740992) \<Longrightarrow>
   scan_lines rest t pos (Finite (amended_new_line (rev pre))) =
   exact_scan rest t pos (amended_new_line (rev pre))"
proof (induction rest arbitrary: pre pos)
  case Nil
  show ?case by simp
next
  case (Cons l ls)
  let ?c = "amended_new_line (rev pre)"
  have later: "\<forall>l'\<in>set ls. \<forall>n. header_start l' = Some n \<longrightarrow> n \<le> 9007199254740992"
    using Cons.prems(1) by simp
  have vals: "\<forall>k\<le>length ls. amended_new_line (rev ((pre @ [l]) @ take k ls)) \<le> 9007199254740992"
  proof (intro allI impI)
    fix k assume "k \<le> length ls"
    then have "Suc k \<le> length (l # ls)" by simp
    with Cons.prems(2) have "amended_new_line (rev (pre @ take (Suc k) (l # ls))) \<le> 9007199254740992"
      by blast
    then show "amended_new_line (rev ((pre @ [l]) @ take k ls)) \<le> 9007199254740992" by simp
  qed
  have IH: "scan_lines ls t (pos + 1) (Finite (amended_new_line (l # rev pre))) =
      exact_scan ls t (pos + 1) (amended_new_line (l # rev pre))"
    using Cons.IH [OF later vals, of "pos + 1"] by simp
  have here: "amended_new_line (l # rev pre) \<le> 9007199254740992"
    using Cons.prems(2) [rule_format, of 1] by simp
  show ?case
  proof (cases "startsWith l ''@@''")
    case True
    show ?thesis
    proof (cases "start_match l")
      case None
      with start_match_header_start [OF True] have hs: "header_start l = None" by simp
      from True have na: "\<not> advances l" by (simp add: header_not_advances startsWith_prefix)
      from True None hs na IH show ?thesis by simp
    next
      case (Some d)
      with start_match_header_start [OF True] have hs: "header_start l = Some (decimal d)" by simp
      from Some have "parseInt d = to_number (decimal d)"
        by (intro parseInt_decimal start_match_digits)
      moreover from hs Cons.prems(1) have "decimal d \<le> 9007199254740992" by simp
      moreover have "0 \<le> decimal d" by (rule decimal_nonneg)
      ultimately have "minus_one (parseInt d) = Finite (decimal d - 1)"
        by (simp add: minus_one_def to_number_def round_int_exact)
      with True Some hs IH show ?thesis by simp
    qed
  next
    case False
    then have hs: "header_start l = None" by (rule header_start_no_header)
    show ?thesis
    proof (cases "advances l")
      case True
      with hs here have "?c + 1 \<le> 9007199254740992" by simp
      with amended_new_line_lower [of "rev pre"] have "plus_one (Finite ?c) = Finite (?c + 1)"
        by (simp add: plus_one_def round_int_exact)
      with False hs True IH show ?thesis
        by (simp add: advances_startsWith [symmetric])
    next
      case nadv: False
      with False hs IH show ?thesis
        by (simp add: advances_startsWith [symmetric])
    qed
  qed
qed

lemma getPositionInDiff_exact:
  assumes "exact_numbers patch"
  shows "getPositionInDiff patch t = exact_scan (text_lines patch) t 0 0"
proof -
  from assms have "\<forall>l\<in>set (text_lines patch). \<forall>n. header_start l = Some n \<longrightarrow> n \<le> 9007199254740992"
    by (auto simp: exact_numbers_def list_all_iff split: option.splits)
  moreover from assms
  have "\<forall>k\<le>length (text_lines patch). amended_new_line (rev ([] @ take k (text_lines patch))) \<le> 9007199254740992"
    by (auto simp: exact_numbers_def list_all_iff)
  ultimately show ?thesis
    using scan_lines_exact [of "text_lines patch" "[]" t 0]
    by (simp add: getPositionInDiff_def split_lines_text_lines)
qed

section \<open>The position resolver\<close>

text \<open>
  The loop and the walk agree from any point of the scan: \<open>pre\<close> holds the lines
  already visited, so the position counter is their number and the new-file line is
  what the walk computes for them.
\<close>

lemma exact_scan_walk:
  "exact_scan rest t (length pre) (amended_new_line (rev pre)) =
   find (amended_hit (pre @ rest) t) [Suc (length pre)..<Suc (length (pre @ rest))]"
proof (induction rest arbitrary: pre)
  case Nil
  then show ?case by simp
next
  case (Cons l ls)
  have range: "[Suc (length pre)..<Suc (length (pre @ l # ls))] =
      Suc (length pre) # [Suc (length (pre @ [l]))..<Suc (length ((pre @ [l]) @ ls))]"
    by (simp add: upt_conv_Cons del: upt_Suc)
  have hit: "amended_hit (pre @ l # ls) t (Suc (length pre)) =
      (advances l \<and> amended_new_line (l # rev pre) = t)"
    by (simp add: amended_hit_def)
  have IH: "exact_scan ls t (Suc (length pre)) (amended_new_line (l # rev pre)) =
      find (amended_hit (pre @ l # ls) t) [Suc (length (pre @ [l]))..<Suc (length ((pre @ [l]) @ ls))]"
    using Cons.IH [of "pre @ [l]"] by simp
  show ?case
  proof (cases "header_start l")
    case (Some n)
    then have "\<not> advances l" by (rule header_start_not_advances)
    with Some IH show ?thesis
      unfolding range
      by (simp only: find.simps hit exact_scan.simps) simp
  next
    case None
    with IH show ?thesis
      unfolding range
      by (simp only: find.simps hit exact_scan.simps) auto
  qed
qed

text \<open>
  Claim C1, as amended. For the patch of the scenario and target new-file line 2 the
  resolver returns position 3: the header is position 1, the context line
  \<^verbatim>\<open> line1\<close> is position 2 and new-file line 1, and the addition \<^verbatim>\<open>+line2\<close> is
  position 3 and new-file line 2.
\<close>

theorem scenario_position_is_3:
  "getPositionInDiff scenario_patch 2 = Some 3"
  by code_simp

text \<open>Claim C1 as it is written, position 2, does not hold.\<close>

theorem scenario_position_is_not_2:
  "getPositionInDiff scenario_patch 2 \<noteq> Some 2"
  by code_simp

text \<open>
  Claim C2 as it is written does not hold: the loop differs from the walk of section
  4.1 on four patches. A header that leaves the new-file length out,
  \<^verbatim>\<open>@@ -3,2 +3 @@\<close>, is no header of the form \<^verbatim>\<open>@@ -o,p +n,q @@\<close>, yet the loop
  resets on it and finds line 3 at position 4. A context line before the first header
  is new-file line 1 for the loop, at position 1, and no line at all for the walk. For
  the target 0, which the walk never finds, the loop returns position 2 after a header
  that starts at line 0. And after a header that starts at \<open>2^53 + 1\<close> the loop, whose
  numbers are doubles, takes the first line of the hunk for line \<open>2^53\<close>.
\<close>

theorem loop_differs_from_reference_walk:
  "getPositionInDiff one_line_hunk 3 = Some 4 \<and> reference_walk one_line_hunk 3 = None
   \<and> getPositionInDiff early_context 1 = Some 1 \<and> reference_walk early_context 1 = None
   \<and> getPositionInDiff starts_at_zero 0 = Some 2 \<and> reference_walk starts_at_zero 0 = None
   \<and> getPositionInDiff beyond_doubles 9007199254740992 = Some 2
   \<and> reference_walk beyond_doubles 9007199254740992 = None"
proof -
  have 1: "getPositionInDiff one_line_hunk 3 = Some 4" by code_simp
  have 2: "reference_walk one_line_hunk 3 = None" by code_simp
  have 3: "getPositionInDiff early_context 1 = Some 1" by code_simp
  have 4: "reference_walk early_context 1 = None" by code_simp
  have 5: "getPositionInDiff starts_at_zero 0 = Some 2" by code_simp
  have 6: "reference_walk starts_at_zero 0 = None" by code_simp
  have 7: "getPositionInDiff beyond_doubles 9007199254740992 = Some 2" by code_simp
  have 8: "reference_walk beyond_doubles 9007199254740992 = None" by code_simp
  from 1 2 3 4 5 6 7 8 show ?thesis by simp
qed

text \<open>
  Claim C2, as amended. For every patch whose numbers are exact in doubles and every
  target line, \<open>getPositionInDiff\<close> returns what the amended walk returns: the first
  position, counted from 1 over every line of the text with the header lines
  included, of a line that begins with \<^verbatim>\<open>+\<close> or a space and on which the new-file
  line equals the target, and \<open>None\<close> when there is no such position; where the
  new-file line starts at 0, a line that begins with \<^verbatim>\<open>@@\<close> and holds
  \<^verbatim>\<open>@@ -o,p +n\<close> resets it to \<open>n - 1\<close>, a line that begins with \<^verbatim>\<open>+\<close> or a space
  adds one to it, and every other line leaves it.
\<close>

theorem getPositionInDiff_is_amended_walk:
  assumes "exact_numbers patch"
  shows "getPositionInDiff patch targetLine = amended_walk patch targetLine"
  using exact_scan_walk [of "text_lines patch" targetLine "[]"] getPositionInDiff_exact [OF assms]
  by (simp add: amended_walk_def)

text \<open>
  The theorem at the patch of the scenario and at the hunk of one line: the walk finds
  line 2 at position 3 and line 3 at position 4, and so does the loop.
\<close>

theorem getPositionInDiff_is_amended_walk_witness:
  "exact_numbers scenario_patch \<and> amended_walk scenario_patch 2 = Some 3
   \<and> getPositionInDiff scenario_patch 2 = Some 3
   \<and> exact_numbers one_line_hunk \<and> amended_walk one_line_hunk 3 = Some 4
   \<and> getPositionInDiff one_line_hunk 3 = Some 4"
proof -
  have e1: "exact_numbers scenario_patch" by code_simp
  have w1: "amended_walk scenario_patch 2 = Some 3" by code_simp
  have e2: "exact_numbers one_line_hunk" by code_simp
  have w2: "amended_walk one_line_hunk 3 = Some 4" by code_simp
  from getPositionInDiff_is_amended_walk [OF e1, of 2] getPositionInDiff_is_amended_walk [OF e2, of 3]
    e1 e2 w1 w2
  show ?thesis by simp
qed

text \<open>
  On a patch that keeps to the format of section 4.1 the two walks agree, and so the
  loop returns what the walk of the specification returns: when every line from which
  a start is read is a header of the form \<^verbatim>\<open>@@ -o,p +n,q @@\<close>, when a header comes
  before the first line that advances, and when the target is positive.
\<close>

lemma full_header_is_read:
  assumes "full_header l = Some (n, q)"
  shows "header_start l = Some n"
proof -
  from assms obtain t1 where t1: "after ''@@ -'' l = Some t1"
    by (auto simp: full_header_def Option.bind_eq_Some_conv)
  from assms obtain r where ht: "header_text l = Some (n, r)"
    by (auto simp: full_header_def header_text_def Option.bind_eq_Some_conv)
  from t1 have p: "prefix ''@@'' l"
    by (auto simp: after_def prefix_def split: if_splits)
  then obtain c cs where l: "l = c # cs" by (cases l) auto
  from ht have "first_some (map header_text (rev (suffixes l))) = Some (n, r)"
    unfolding l by (simp only: rev_suffixes_Cons) simp
  with p show ?thesis by (simp add: header_start_def read_header_def)
qed

lemma new_lines_agree:
  "\<forall>l\<in>set xs. full_header l = None \<longrightarrow> header_start l = None \<Longrightarrow>
   \<exists>l\<in>set xs. full_header l \<noteq> None \<Longrightarrow>
   reference_new_line xs = Some (amended_new_line xs)"
proof (induction xs)
  case Nil
  then show ?case by simp
next
  case (Cons l earlier)
  show ?case
  proof (cases "full_header l")
    case (Some nq)
    obtain n q where nq: "nq = (n, q)" by (cases nq) auto
    with Some have "header_start l = Some n" by (simp add: full_header_is_read)
    with Some nq show ?thesis by simp
  next
    case None
    with Cons.prems have hs: "header_start l = None"
      and "\<exists>l\<in>set earlier. full_header l \<noteq> None"
      and "\<forall>l\<in>set earlier. full_header l = None \<longrightarrow> header_start l = None"
      by auto
    with Cons.IH have "reference_new_line earlier = Some (amended_new_line earlier)" by simp
    with None hs show ?thesis by simp
  qed
qed

lemma walks_agree_on_format:
  assumes fmt: "\<forall>l\<in>set (text_lines patch). full_header l = None \<longrightarrow> header_start l = None"
    and first: "\<forall>k<length (text_lines patch). advances (text_lines patch ! k) \<longrightarrow>
                  (\<exists>j<k. full_header (text_lines patch ! j) \<noteq> None)"
    and pos: "0 < target"
  shows "amended_walk patch target = reference_walk patch target"
proof -
  let ?ls = "text_lines patch"
  have "amended_hit ?ls target k = reference_hit ?ls target k"
    if k: "k \<in> set [1..<Suc (length ?ls)]" for k
  proof (cases "advances (?ls ! (k - 1))")
    case False
    then show ?thesis by (simp add: amended_hit_def reference_hit_def)
  next
    case True
    from k have k1: "k - 1 < length ?ls" "0 < k" by auto
    with first True obtain j where j: "j < k - 1" "full_header (?ls ! j) \<noteq> None" by blast
    with k1 have "?ls ! j \<in> set (take k ?ls)"
      by (auto simp: in_set_conv_nth intro!: exI [of _ j])
    with j have h: "\<exists>l\<in>set (rev (take k ?ls)). full_header l \<noteq> None" by auto
    have "\<forall>l\<in>set (rev (take k ?ls)). full_header l = None \<longrightarrow> header_start l = None"
      using fmt by (auto dest: in_set_takeD)
    from new_lines_agree [OF this h] show ?thesis
      by (simp add: amended_hit_def reference_hit_def)
  qed
  then have "find (amended_hit ?ls target) [1..<Suc (length ?ls)] =
      find (reference_hit ?ls target) [1..<Suc (length ?ls)]"
    by (intro find_cong) auto
  with pos show ?thesis by (simp add: amended_walk_def reference_walk_def)
qed

lemma getPositionInDiff_on_format:
  assumes "exact_numbers patch"
    and "\<forall>l\<in>set (text_lines patch). full_header l = None \<longrightarrow> header_start l = None"
    and "\<forall>k<length (text_lines patch). advances (text_lines patch ! k) \<longrightarrow>
           (\<exists>j<k. full_header (text_lines patch ! j) \<noteq> None)"
    and "0 < target"
  shows "getPositionInDiff patch target = reference_walk patch target"
  using exact_scan_walk [of "text_lines patch" target "[]"] getPositionInDiff_exact [OF assms(1)]
    walks_agree_on_format [OF assms(2,3,4)]
  by (simp add: amended_walk_def)

text \<open>So it is for the patch of the scenario, where both walks find line 2 at position 3.\<close>

lemma scenario_keeps_to_format:
  "reference_walk scenario_patch 2 = Some 3 \<and> amended_walk scenario_patch 2 = Some 3"
  by code_simp

section \<open>Lines outside every declared hunk\<close>

lemma header_range_start:
  "header_range l = Some (n, q) \<Longrightarrow> header_start l = Some n"
  by (auto simp: header_range_def header_start_def)

lemma header_range_None: "header_range l = None \<Longrightarrow> header_start l = None"
  by (simp add: header_range_def header_start_def)

text \<open>
  While the hunks are no longer than declared, a position is only returned for a
  target that the current hunk can still reach or that a later line declares.
\<close>

lemma exact_scan_declared:
  "exact_scan ls t pos c = Some p \<Longrightarrow> hunks_as_declared ls r \<Longrightarrow>
   (\<exists>l\<in>set ls. in_range t l) \<or> (c < t \<and> t \<le> c + int r)"
proof (induction ls arbitrary: pos c r)
  case Nil
  then show ?case by simp
next
  case (Cons l ls)
  show ?case
  proof (cases "header_range l")
    case (Some nq)
    obtain n q where nq: "nq = (n, q)" by (cases nq) auto
    from Some nq have hs: "header_start l = Some n" by (simp add: header_range_start)
    from Cons.prems(2) Some nq have wf: "hunks_as_declared ls (nat q)" by simp
    from Cons.prems(1) hs have "exact_scan ls t (pos + 1) (n - 1) = Some p" by simp
    from Cons.IH [OF this wf] show ?thesis
    proof
      assume "\<exists>l\<in>set ls. in_range t l"
      then show ?thesis by auto
    next
      assume "n - 1 < t \<and> t \<le> n - 1 + int (nat q)"
      then have "n \<le> t \<and> t < n + q" by (cases "0 \<le> q") simp_all
      with Some nq have "in_range t l" by (simp add: in_range_def)
      then show ?thesis by simp
    qed
  next
    case None
    then have hs: "header_start l = None" by (rule header_range_None)
    show ?thesis
    proof (cases "advances l")
      case True
      with None Cons.prems(2) have r: "0 < r" and wf: "hunks_as_declared ls (r - 1)" by auto
      show ?thesis
      proof (cases "c + 1 = t")
        case True
        with r show ?thesis by simp
      next
        case ne: False
        with True hs Cons.prems(1) have "exact_scan ls t (pos + 1) (c + 1) = Some p" by simp
        from Cons.IH [OF this wf] r show ?thesis by auto
      qed
    next
      case nadv: False
      with None hs Cons.prems have "exact_scan ls t (pos + 1) c = Some p" "hunks_as_declared ls r"
        by auto
      from Cons.IH [OF this] show ?thesis by auto
    qed
  qed
qed

text \<open>
  Claim C3 as it is written does not hold. The patch \<^verbatim>\<open>+a\<close> has no hunk header, so
  line 1 is outside every range, and the resolver returns position 1 for it. In a
  hunk that is longer than its header declares, the line after the declared range
  is found. After a header that starts at \<open>2^53 + 1\<close> the line \<open>2^53\<close>, before the
  range, is found. And where the header of a second hunk leaves the old length out,
  \<^verbatim>\<open>@@ -10 +10,2 @@\<close>, the loop does not read it and counts on from the first hunk:
  line 3, in neither hunk, is found at position 5. In each case no header line
  declares the line, and \<open>isLineInHunk\<close> is false.
\<close>

theorem lines_outside_hunks_are_resolved:
  "\<not> list_ex (in_range 1) (text_lines ''+a'') \<and> \<not> isLineInHunk ''+a'' 1
   \<and> getPositionInDiff ''+a'' 1 = Some 1
   \<and> \<not> list_ex (in_range 2) (text_lines long_hunk) \<and> \<not> isLineInHunk long_hunk 2
   \<and> getPositionInDiff long_hunk 2 = Some 3
   \<and> \<not> list_ex (in_range 9007199254740992) (text_lines beyond_doubles)
   \<and> \<not> isLineInHunk beyond_doubles 9007199254740992
   \<and> getPositionInDiff beyond_doubles 9007199254740992 = Some 2
   \<and> \<not> list_ex (in_range 3) (text_lines short_old_header) \<and> \<not> isLineInHunk short_old_header 3
   \<and> getPositionInDiff short_old_header 3 = Some 5"
proof -
  have a1: "\<not> list_ex (in_range 1) (text_lines ''+a'')" by code_simp
  have a2: "\<not> isLineInHunk ''+a'' 1" by code_simp
  have a3: "getPositionInDiff ''+a'' 1 = Some 1" by code_simp
  have b1: "\<not> list_ex (in_range 2) (text_lines long_hunk)" by code_simp
  have b2: "\<not> isLineInHunk long_hunk 2" by code_simp
  have b3: "getPositionInDiff long_hunk 2 = Some 3" by code_simp
  have c1: "\<not> list_ex (in_range 9007199254740992) (text_lines beyond_doubles)" by code_simp
  have c2: "\<not> isLineInHunk beyond_doubles 9007199254740992" by code_simp
  have c3: "getPositionInDiff beyond_doubles 9007199254740992 = Some 2" by code_simp
  have d1: "\<not> list_ex (in_range 3) (text_lines short_old_header)" by code_simp
  have d2: "\<not> isLineInHunk short_old_header 3" by code_simp
  have d3: "getPositionInDiff short_old_header 3 = Some 5" by code_simp
  from a1 a2 a3 b1 b2 b3 c1 c2 c3 d1 d2 d3 show ?thesis by simp
qed

text \<open>
  Claim C3, as amended. For every patch whose hunks are no longer than declared (no
  line that begins with \<^verbatim>\<open>+\<close> or a space precedes the first line that declares a
  range, and at most \<open>q\<close> such lines follow a line that declares \<open>[n, n + q)\<close> before
  the next one), whose numbers are exact in doubles, and every target line outside
  the range of every line of the patch, \<open>getPositionInDiff\<close> returns \<open>None\<close>. A line
  declares a range when it begins with \<^verbatim>\<open>@@\<close> and holds \<^verbatim>\<open>@@ -o,p +n\<close>: the range is
  \<open>[n, n + q)\<close> when \<^verbatim>\<open>,q\<close> follows \<open>n\<close>, and \<open>[n, n + 1)\<close> when no length follows.
\<close>

theorem not_found_outside_declared_hunks:
  assumes "well_formed_patch patch" and "exact_numbers patch"
    and "\<not> list_ex (in_range lnum) (text_lines patch)"
  shows "getPositionInDiff patch lnum = None"
proof (rule ccontr)
  assume "getPositionInDiff patch lnum \<noteq> None"
  then obtain p where "exact_scan (text_lines patch) lnum 0 0 = Some p"
    by (auto simp: getPositionInDiff_exact [OF assms(2)])
  from exact_scan_declared [OF this assms(1) [unfolded well_formed_patch_def]]
  have "\<exists>l\<in>set (text_lines patch). in_range lnum l" by auto
  with assms(3) show False by (simp add: list_ex_iff)
qed

text \<open>
  The theorem at the patch of the scenario and line 4: the one header declares the
  lines 1 to 3. And at the hunk of one line and line 4: its header declares line 3.
\<close>

theorem not_found_outside_declared_hunks_witness:
  "well_formed_patch scenario_patch \<and> exact_numbers scenario_patch
   \<and> \<not> list_ex (in_range 4) (text_lines scenario_patch)
   \<and> getPositionInDiff scenario_patch 4 = None
   \<and> well_formed_patch one_line_hunk \<and> exact_numbers one_line_hunk
   \<and> \<not> list_ex (in_range 4) (text_lines one_line_hunk)
   \<and> getPositionInDiff one_line_hunk 4 = None"
proof -
  have wf: "well_formed_patch scenario_patch" by code_simp
  have ex: "exact_numbers scenario_patch" by code_simp
  have out: "\<not> list_ex (in_range 4) (text_lines scenario_patch)" by code_simp
  have wf2: "well_formed_patch one_line_hunk" by code_simp
  have ex2: "exact_numbers one_line_hunk" by code_simp
  have out2: "\<not> list_ex (in_range 4) (text_lines one_line_hunk)" by code_simp
  from not_found_outside_declared_hunks [OF wf ex out]
    not_found_outside_declared_hunks [OF wf2 ex2 out2] wf ex out wf2 ex2 out2
  show ?thesis by simp
qed

section \<open>The review of \<open>ReviewEngineCore\<close>\<close>

lemma entry_in_concat: "x \<in> set xs \<Longrightarrow> sublist (g x) (concat (map g xs))"
proof -
  assume "x \<in> set xs"
  then obtain ys zs where "xs = ys @ x # zs" by (auto simp: in_set_conv_decomp)
  then have "concat (map g xs) = concat (map g ys) @ g x @ concat (map g zs)" by simp
  then show ?thesis unfolding sublist_def by blast
qed

lemma sublist_mid: "sublist x s \<Longrightarrow> sublist x (pre @ s @ post)"
proof -
  assume "sublist x s"
  then obtain p q where "s = p @ x @ q" unfolding sublist_def by blast
  then have "pre @ s @ post = (pre @ p) @ x @ (q @ post)" by simp
  then show ?thesis unfolding sublist_def by blast
qed

lemma entry_in_section:
  "f \<in> set b \<Longrightarrow> sublist (finding_entry E f) (section_text E title b)"
proof -
  assume f: "f \<in> set b"
  then have "b \<noteq> []" by auto
  then have "section_text E title b =
      (''### '' @ title @ '' ('' @ show_nat (length b) @ '')'' @ [newline]) @ concat (map (finding_entry E) b)"
    by (simp add: section_text_def)
  with entry_in_concat [OF f, of "finding_entry E"] show ?thesis
    using sublist_mid [of "finding_entry E f" "concat (map (finding_entry E) b)"
        "''### '' @ title @ '' ('' @ show_nat (length b) @ '')'' @ [newline]" "[]"]
    by simp
qed

text \<open>The four filters of the source select the four buckets.\<close>

lemma buckets_by_bucket_of:
  "highFindings fs = filter (\<lambda>f. bucket_of f = High) fs"
  "mediumFindings fs = filter (\<lambda>f. bucket_of f = Medium) fs"
  "lowFindings fs = filter (\<lambda>f. bucket_of f = Low) fs"
  "otherFindings fs = filter (\<lambda>f. bucket_of f = Unspecified) fs"
  unfolding highFindings_def mediumFindings_def lowFindings_def otherFindings_def
  by (rule filter_cong [OF refl], simp add: bucket_of_def)+

text \<open>An empty patch, which the source takes for a missing one, has no position anyway.\<close>

lemma getPositionInDiff_empty: "getPositionInDiff [] lnum = None"
  by (simp add: getPositionInDiff_def startsWith_def)

text \<open>
  The findings that get an inline comment are the resolvable ones, and the comment
  carries the file, the position that the resolver finds, and the text.
\<close>

lemma inline_comment_resolvable:
  "(case line f of None \<Rightarrow> None | Some lnum \<Rightarrow> inline_comment E fp f lnum) =
   (if resolvable fp f
    then Some \<lparr>path = filename f, position = the (resolved_position fp f), body = comment_text E f\<rparr>
    else None)"
  by (auto simp: inline_comment_def resolvable_def resolved_position_def getPositionInDiff_empty
      split: option.splits)

lemma inline_comments_eq:
  "inline_comments E fp fs =
   map (\<lambda>f. \<lparr>path = filename f, position = the (resolved_position fp f), body = comment_text E f\<rparr>)
     (filter (resolvable fp) fs)"
proof (induction fs)
  case Nil
  show ?case by (simp add: inline_comments_def map_filter_simps)
next
  case (Cons f fs)
  then show ?case
    unfolding inline_comments_def
    by (simp only: map_filter_simps inline_comment_resolvable) simp
qed

lemma resolvable_position:
  "resolvable fp f \<Longrightarrow> resolved_position fp f = Some (the (resolved_position fp f))"
  by (auto simp: resolvable_def resolved_position_def split: option.splits)

lemma inline_comments_fields:
  "map (\<lambda>c. (path c, Some (position c), body c)) (inline_comments E fp fs) =
   map (\<lambda>f. (filename f, resolved_position fp f, comment_text E f)) (filter (resolvable fp) fs)"
  unfolding inline_comments_eq
  by (induction fs) (simp_all add: resolvable_position [symmetric])

lemma inline_comments_empty:
  "inline_comments E fp fs = [] \<longleftrightarrow> filter (resolvable fp) fs = []"
  by (simp add: inline_comments_eq)

text \<open>
  Claim C5. For every list of findings and every mapping of patches: when no finding
  is resolvable to an inline comment and there is at least one finding, \<open>postReview\<close>
  posts the body as an issue comment (\<^verbatim>\<open>createComment\<close>); when there is no finding it
  posts nothing; otherwise it posts a review (\<^verbatim>\<open>createReview\<close>) with the inline
  comments, whose event is \<^verbatim>\<open>REQUEST_CHANGES\<close> when some finding has severity
  \<^verbatim>\<open>high\<close> and \<^verbatim>\<open>COMMENT\<close> otherwise.
\<close>

theorem postReview_payload_shape:
  "postReview E ctx fp own rn n sha findings =
     (if filter (resolvable fp) findings = [] \<and> findings \<noteq> [] then
        Some (CreateComment own rn n (review_body E ctx findings))
      else if findings = [] then None
      else Some (CreateReview own rn n sha (review_body E ctx findings)
                   (if \<exists>f\<in>set findings. severity f = Some ''high''
                    then ''REQUEST_CHANGES'' else ''COMMENT'')
                   (inline_comments E fp findings)))"
proof -
  have high: "(length (highFindings findings) > 0) = (\<exists>f\<in>set findings. severity f = Some ''high'')"
    by (auto simp: highFindings_def filter_empty_conv)
  have none: "findings = [] \<Longrightarrow> inline_comments E fp findings = []"
    by (simp add: inline_comments_def map_filter_simps)
  show ?thesis
  proof (cases "findings = []")
    case True
    with none show ?thesis by (simp add: postReview_def)
  next
    case False
    then have len: "length findings > 0" by simp
    show ?thesis
    proof (cases "filter (resolvable fp) findings = []")
      case True
      then have "length (inline_comments E fp findings) = 0"
        using inline_comments_empty [of E fp findings] by simp
      with True False len show ?thesis
        by (simp only: postReview_def Let_def simp_thms if_True)
    next
      case nonempty: False
      then have "length (inline_comments E fp findings) \<noteq> 0"
        using inline_comments_empty [of E fp findings] by simp
      with nonempty False show ?thesis
        by (simp only: postReview_def Let_def high simp_thms if_False)
    qed
  qed
qed

text \<open>
  The theorem at one finding of severity \<^verbatim>\<open>high\<close> on line 5, which the patch does not
  hold: the body goes out as an issue comment.
\<close>

theorem postReview_payload_shape_witness:
  "postReview example_engine example_context example_patches ''o'' ''r'' 7 ''sha'' [finding_on_line_5] =
     Some (CreateComment ''o'' ''r'' 7 (review_body example_engine example_context [finding_on_line_5]))"
proof -
  have "filter (resolvable example_patches) [finding_on_line_5] = []"
    by code_simp
  with postReview_payload_shape [of example_engine example_context example_patches "''o''" "''r''" 7
      "''sha''" "[finding_on_line_5]"]
  show ?thesis by simp
qed

text \<open>The text of an entry and of an inline comment, by the fields of the finding.\<close>

lemma finding_entry_text:
  "finding_entry E =
   (\<lambda>f. ''* **['' @ toUpperCase E (category f) @ '']** `'' @ filename f
         @ (case line f of
              None \<Rightarrow> []
            | Some n \<Rightarrow> if n = 0 then [] else '':'' @ ToString E (Num (of_int n)))
         @ ''`'' @ [newline]
         @ ''  '' @ message f @ [newline]
         @ (case suggestion f of
              None \<Rightarrow> []
            | Some sg \<Rightarrow> if sg = [] then [] else ''  '' @ light_bulb @ '' *'' @ sg @ ''*'' @ [newline])
         @ [newline])"
  by (rule ext) (simp add: finding_entry_def)

lemma comment_text_text:
  "comment_text E =
   (\<lambda>f. ''**['' @ (case severity f of
                     None \<Rightarrow> ''ISSUE''
                   | Some sv \<Rightarrow> if toUpperCase E sv = [] then ''ISSUE'' else toUpperCase E sv)
         @ '' - '' @ toUpperCase E (category f) @ '']** '' @ message f @ [newline, newline]
         @ light_bulb @ '' *Suggestion*: ''
         @ (case suggestion f of
              None \<Rightarrow> ''Review and address this issue.''
            | Some sg \<Rightarrow> if sg = [] then ''Review and address this issue.'' else sg))"
  by (rule ext) (simp add: comment_text_def)

lemma review_body_sections:
  "review_body E ctx findings =
     body_head ctx (length findings)
     @ section_text E (red_circle @ '' High Priority'') (filter (\<lambda>f. bucket_of f = High) findings)
     @ section_text E (yellow_circle @ '' Medium Priority'') (filter (\<lambda>f. bucket_of f = Medium) findings)
     @ section_text E (blue_circle @ '' Low Priority'') (filter (\<lambda>f. bucket_of f = Low) findings)
     @ section_text E (memo @ '' Other Issues'') (filter (\<lambda>f. bucket_of f = Unspecified) findings)"
  by (simp only: review_body_def buckets_by_bucket_of)

lemma review_body_entries:
  assumes f: "f \<in> set findings"
  shows "sublist (finding_entry E f) (review_body E ctx findings)"
proof -
  from f have "f \<in> set (filter (\<lambda>g. bucket_of g = bucket_of f) findings)" by simp
  then have e: "sublist (finding_entry E f)
      (section_text E title (filter (\<lambda>g. bucket_of g = bucket_of f) findings))" for title
    by (rule entry_in_section)
  let ?H = "body_head ctx (length findings)"
  let ?S = "\<lambda>title b. section_text E title (filter (\<lambda>g. bucket_of g = b) findings)"
  let ?S1 = "?S (red_circle @ '' High Priority'') High"
  let ?S2 = "?S (yellow_circle @ '' Medium Priority'') Medium"
  let ?S3 = "?S (blue_circle @ '' Low Priority'') Low"
  let ?S4 = "?S (memo @ '' Other Issues'') Unspecified"
  show ?thesis
  proof (cases "bucket_of f")
    case High
    with e have "sublist (finding_entry E f) ?S1" by simp
    from sublist_mid [OF this, of ?H "?S2 @ ?S3 @ ?S4"] show ?thesis
      by (simp only: review_body_sections)
  next
    case Medium
    with e have "sublist (finding_entry E f) ?S2" by simp
    from sublist_mid [OF this, of "?H @ ?S1" "?S3 @ ?S4"] show ?thesis
      by (simp only: review_body_sections append_assoc)
  next
    case Low
    with e have "sublist (finding_entry E f) ?S3" by simp
    from sublist_mid [OF this, of "?H @ ?S1 @ ?S2" "?S4"] show ?thesis
      by (simp only: review_body_sections append_assoc)
  next
    case Unspecified
    with e have "sublist (finding_entry E f) ?S4" by simp
    from sublist_mid [OF this, of "?H @ ?S1 @ ?S2 @ ?S3" "[]"] show ?thesis
      by (simp only: review_body_sections append_assoc append_Nil2)
  qed
qed

lemma section_text_words:
  "section_text E title b =
   (if b = [] then []
    else ''### '' @ title @ '' ('' @ show_nat (length b) @ '')'' @ [newline]
         @ concat (map (finding_entry E) b))"
  by (simp add: section_text_def)

text \<open>
  Claim C6. For every list of findings the body is the heading followed by the
  sections high, medium, low and other, each left out when its bucket is empty and
  else made of its title, the number of its findings and the entries of the findings
  of its bucket in the order of the input. The entry of a finding holds its category
  in upper case, its file, its line when it has one other than 0, its message, and
  its suggestion when it has one that is not empty; every finding has its entry in
  the body. The body is the text that is posted, and nothing is posted only when
  there is no finding. The inline comments are those of the resolvable findings, in
  order, each with the file of its finding, the position that the resolver finds for
  its line and the text made of its severity, category, message and suggestion; so a
  finding whose file has no patch, whose line is not positive or whose position is
  not found is left out of the inline comments alone.
\<close>

theorem review_body_covers_findings:
  "let entry = (\<lambda>f. ''* **['' @ toUpperCase E (category f) @ '']** `'' @ filename f
                     @ (case line f of
                          None \<Rightarrow> []
                        | Some n \<Rightarrow> if n = 0 then [] else '':'' @ ToString E (Num (of_int n)))
                     @ ''`'' @ [newline]
                     @ ''  '' @ message f @ [newline]
                     @ (case suggestion f of
                          None \<Rightarrow> []
                        | Some sg \<Rightarrow>
                            if sg = [] then []
                            else ''  '' @ light_bulb @ '' *'' @ sg @ ''*'' @ [newline])
                     @ [newline]);
       part = (\<lambda>title b.
                 if filter (\<lambda>f. bucket_of f = b) findings = [] then []
                 else ''### '' @ title @ '' (''
                      @ show_nat (length (filter (\<lambda>f. bucket_of f = b) findings)) @ '')''
                      @ [newline] @ concat (map entry (filter (\<lambda>f. bucket_of f = b) findings)));
       remark = (\<lambda>f. ''**['' @ (case severity f of
                                  None \<Rightarrow> ''ISSUE''
                                | Some sv \<Rightarrow>
                                    if toUpperCase E sv = [] then ''ISSUE'' else toUpperCase E sv)
                      @ '' - '' @ toUpperCase E (category f) @ '']** '' @ message f
                      @ [newline, newline] @ light_bulb @ '' *Suggestion*: ''
                      @ (case suggestion f of
                           None \<Rightarrow> ''Review and address this issue.''
                         | Some sg \<Rightarrow> if sg = [] then ''Review and address this issue.'' else sg))
   in review_body E ctx findings =
        body_head ctx (length findings)
        @ part (red_circle @ '' High Priority'') High
        @ part (yellow_circle @ '' Medium Priority'') Medium
        @ part (blue_circle @ '' Low Priority'') Low
        @ part (memo @ '' Other Issues'') Unspecified
      \<and> (\<forall>f\<in>set findings. sublist (entry f) (review_body E ctx findings))
      \<and> (case postReview E ctx fp own rn n sha findings of
            None \<Rightarrow> findings = []
          | Some c \<Rightarrow> call_body c = review_body E ctx findings)
      \<and> map (\<lambda>c. (path c, Some (position c), body c)) (inline_comments E fp findings) =
          map (\<lambda>f. (filename f, resolved_position fp f, remark f)) (filter (resolvable fp) findings)"
proof -
  have posted: "(case postReview E ctx fp own rn n sha findings of
         None \<Rightarrow> findings = []
       | Some c \<Rightarrow> call_body c = review_body E ctx findings)"
    by (simp add: postReview_def Let_def)
  have entries: "\<forall>f\<in>set findings. sublist (finding_entry E f) (review_body E ctx findings)"
    by (simp add: review_body_entries)
  have body: "review_body E ctx findings =
     body_head ctx (length findings)
     @ section_text E (red_circle @ '' High Priority'') (filter (\<lambda>f. bucket_of f = High) findings)
     @ section_text E (yellow_circle @ '' Medium Priority'') (filter (\<lambda>f. bucket_of f = Medium) findings)
     @ section_text E (blue_circle @ '' Low Priority'') (filter (\<lambda>f. bucket_of f = Low) findings)
     @ section_text E (memo @ '' Other Issues'') (filter (\<lambda>f. bucket_of f = Unspecified) findings)"
    by (rule review_body_sections)
  from body entries posted inline_comments_fields [of E fp findings]
  show ?thesis
    unfolding Let_def finding_entry_text [symmetric] comment_text_text [symmetric]
      section_text_words [symmetric]
    by blast
qed

text \<open>
  The theorem at the two example findings: the finding on line 5 is not resolvable,
  its entry is in the body, and the one inline comment is that of the finding on
  line 2, at position 3.
\<close>

theorem review_body_covers_findings_witness:
  "finding_on_line_5 \<in> set [finding_on_line_2, finding_on_line_5]
   \<and> \<not> resolvable example_patches finding_on_line_5
   \<and> sublist (''* **[BUG]** `a.ts:5`'' @ [newline] @ ''  Null dereference'' @ [newline, newline])
        (review_body example_engine example_context [finding_on_line_2, finding_on_line_5])
   \<and> map (\<lambda>c. (path c, Some (position c), body c))
        (inline_comments example_engine example_patches [finding_on_line_2, finding_on_line_5])
      = [(''a.ts'', Some 3,
          ''**[MEDIUM - STYLE]** Unclear name'' @ [newline, newline] @ light_bulb
          @ '' *Suggestion*: Rename it'')]"
proof -
  let ?fs = "[finding_on_line_2, finding_on_line_5]"
  let ?entry = "\<lambda>f. ''* **['' @ toUpperCase example_engine (category f) @ '']** `'' @ filename f
                     @ (case line f of
                          None \<Rightarrow> []
                        | Some n \<Rightarrow> if n = 0 then [] else '':'' @ ToString example_engine (Num (of_int n)))
                     @ ''`'' @ [newline]
                     @ ''  '' @ message f @ [newline]
                     @ (case suggestion f of
                          None \<Rightarrow> []
                        | Some sg \<Rightarrow>
                            if sg = [] then []
                            else ''  '' @ light_bulb @ '' *'' @ sg @ ''*'' @ [newline])
                     @ [newline]"
  let ?remark = "\<lambda>f. ''**['' @ (case severity f of
                                  None \<Rightarrow> ''ISSUE''
                                | Some sv \<Rightarrow>
                                    if toUpperCase example_engine sv = [] then ''ISSUE''
                                    else toUpperCase example_engine sv)
                      @ '' - '' @ toUpperCase example_engine (category f) @ '']** '' @ message f
                      @ [newline, newline] @ light_bulb @ '' *Suggestion*: ''
                      @ (case suggestion f of
                           None \<Rightarrow> ''Review and address this issue.''
                         | Some sg \<Rightarrow> if sg = [] then ''Review and address this issue.'' else sg)"
  have r2: "resolvable example_patches finding_on_line_2" by code_simp
  have r5: "\<not> resolvable example_patches finding_on_line_5" by code_simp
  have p2: "resolved_position example_patches finding_on_line_2 = Some 3" by code_simp
  have e5: "?entry finding_on_line_5 =
      ''* **[BUG]** `a.ts:5`'' @ [newline] @ ''  Null dereference'' @ [newline, newline]"
    by code_simp
  have c2: "?remark finding_on_line_2 =
      ''**[MEDIUM - STYLE]** Unclear name'' @ [newline, newline] @ light_bulb
      @ '' *Suggestion*: Rename it''"
    by code_simp
  have f2: "filename finding_on_line_2 = ''a.ts''" by (simp add: finding_on_line_2_def)
  from review_body_covers_findings [where E = example_engine and ctx = example_context
      and findings = "?fs" and fp = example_patches, unfolded Let_def]
  have a: "\<forall>f\<in>set ?fs. sublist (?entry f) (review_body example_engine example_context ?fs)"
    and b: "map (\<lambda>c. (path c, Some (position c), body c))
              (inline_comments example_engine example_patches ?fs) =
            map (\<lambda>f. (filename f, resolved_position example_patches f, ?remark f))
              (filter (resolvable example_patches) ?fs)"
    by blast+
  from a have "sublist (?entry finding_on_line_5) (review_body example_engine example_context ?fs)"
    by simp
  then have 1: "sublist (''* **[BUG]** `a.ts:5`'' @ [newline] @ ''  Null dereference'' @ [newline, newline])
      (review_body example_engine example_context ?fs)"
    by (simp only: e5)
  have "filter (resolvable example_patches) ?fs = [finding_on_line_2]"
    using r2 r5 by simp
  with b have 2: "map (\<lambda>c. (path c, Some (position c), body c))
        (inline_comments example_engine example_patches ?fs)
      = [(''a.ts'', Some 3,
          ''**[MEDIUM - STYLE]** Unclear name'' @ [newline, newline] @ light_bulb
          @ '' *Suggestion*: Rename it'')]"
    by (simp only: list.map p2 c2 f2)
  from 1 2 r5 show ?thesis by simp
qed

section \<open>The review of \<open>ReviewEngine\<close>\<close>

lemma review_loop_eq:
  "review_loop E fs body0 cs = (body0 @ concat (map (finding_section E) fs), cs @ line_comments E fs)"
proof (induction fs arbitrary: body0 cs)
  case Nil
  show ?case by (simp add: line_comments_def map_filter_simps)
next
  case (Cons f fs)
  show ?case
    by (simp add: Cons.IH line_comments_def map_filter_simps split: option.splits)
qed

lemma postReview'_calls:
  "postReview' E model_name review_fails own rp n sha findings =
     PullsCreateReview own rp n sha
       (review_head model_name (length findings) @ concat (map (finding_section E) findings))
       ''COMMENT'' (take 30 (line_comments E findings))
     # (if review_fails
        then [IssuesCreateComment own rp n
                (review_head model_name (length findings) @ concat (map (finding_section E) findings))]
        else [])"
  by (simp add: postReview'_def review_loop_eq)

lemma emoji_of_text:
  "emoji_of E f =
     (case map_of severityEmoji (severity' f) of
        Some e \<Rightarrow> e
      | None \<Rightarrow> (case inherited_text E (severity' f) of Some t \<Rightarrow> t | None \<Rightarrow> ''undefined''))
     @ '' ''
     @ (case map_of categoryEmoji (category' f) of
          Some e \<Rightarrow> e
        | None \<Rightarrow> (case inherited_text E (category' f) of Some t \<Rightarrow> t | None \<Rightarrow> pin_emoji))"
  by (simp add: emoji_of_def lookup_text_def split: option.splits)

text \<open>The comments that the loop builds, by the fields of the findings.\<close>

lemma line_comments_eq:
  "line_comments E fs =
   map (\<lambda>f. line_comment E f (the (line' f)))
     (filter (\<lambda>f. line' f \<noteq> None \<and> line' f \<noteq> Some 0) fs)"
  by (induction fs) (auto simp: line_comments_def map_filter_simps split: option.splits)

text \<open>
  Claim C10. For every list of findings the first call of \<open>ReviewEngine.postReview\<close>,
  the \<^verbatim>\<open>createReview\<close>, carries the first 30 of the comments built from the findings
  that have a line other than 0, so at most 30 comments, while its body is the heading
  followed by the section of every finding, in order. A comment holds the file and
  the line of its finding and a text made of the emoji, the severity in upper case,
  the category, the message and the suggestion. The section of a finding holds the
  emoji of its severity and of its category, its file, its line when it has one other
  than 0, its message and its suggestion. The emoji of a severity or category is
  that of the table, or for a name of \<^verbatim>\<open>Object.prototype\<close> the text of what that name
  holds, or else the word \<^verbatim>\<open>undefined\<close> for the severity and the pin for the category.
\<close>

theorem postReview'_at_most_30_comments:
  "let emoji = (\<lambda>f. (case map_of severityEmoji (severity' f) of
                        Some e \<Rightarrow> e
                      | None \<Rightarrow>
                          (case inherited_text E (severity' f) of
                             Some t \<Rightarrow> t
                           | None \<Rightarrow> ''undefined''))
                     @ '' ''
                     @ (case map_of categoryEmoji (category' f) of
                          Some e \<Rightarrow> e
                        | None \<Rightarrow>
                            (case inherited_text E (category' f) of
                               Some t \<Rightarrow> t
                             | None \<Rightarrow> pin_emoji)));
       part = (\<lambda>f. ''### '' @ emoji f @ '' '' @ filename' f
                    @ (case line' f of
                         None \<Rightarrow> []
                       | Some lnum \<Rightarrow>
                           if lnum = 0 then []
                           else '' (line '' @ ToString E (Num (of_int lnum)) @ '')'')
                    @ [newline] @ ''**Issue:** '' @ message' f @ [newline]
                    @ ''**Fix:** '' @ suggestion' f @ [newline, newline]);
       remark = (\<lambda>f. \<lparr>path' = filename' f, line_no = the (line' f),
                       body' = emoji f @ '' **'' @ toUpperCase E (severity' f) @ ''** - ''
                               @ category' f @ [newline, newline] @ message' f
                               @ [newline, newline] @ light_bulb @ '' **Suggestion:** ''
                               @ suggestion' f\<rparr>);
       call = hd (postReview' E model_name review_fails own rp n sha findings)
   in comments' call = take 30 (line_comments E findings)
      \<and> line_comments E findings =
          map remark (filter (\<lambda>f. line' f \<noteq> None \<and> line' f \<noteq> Some 0) findings)
      \<and> length (comments' call) \<le> 30
      \<and> call_body' call = review_head model_name (length findings) @ concat (map part findings)
      \<and> (\<forall>f\<in>set findings. sublist (part f) (call_body' call))"
proof -
  let ?part = "\<lambda>f. ''### '' @ emoji_of E f @ '' '' @ filename' f
                    @ (case line' f of
                         None \<Rightarrow> []
                       | Some lnum \<Rightarrow>
                           if lnum = 0 then []
                           else '' (line '' @ ToString E (Num (of_int lnum)) @ '')'')
                    @ [newline] @ ''**Issue:** '' @ message' f @ [newline]
                    @ ''**Fix:** '' @ suggestion' f @ [newline, newline]"
  have part: "finding_section E = ?part"
    by (rule ext) (simp add: finding_section_def)
  have entries: "sublist (?part f) (h @ concat (map ?part findings))"
    if "f \<in> set findings" for f h
    using sublist_mid [OF entry_in_concat [OF that, of ?part], of h "[]"] by simp
  have calls: "postReview' E model_name review_fails own rp n sha findings =
     PullsCreateReview own rp n sha
       (review_head model_name (length findings) @ concat (map ?part findings))
       ''COMMENT'' (take 30 (line_comments E findings))
     # (if review_fails
        then [IssuesCreateComment own rp n
                (review_head model_name (length findings) @ concat (map ?part findings))]
        else [])"
    using postReview'_calls [of E model_name review_fails own rp n sha findings]
    unfolding part .
  have remarks: "line_comments E findings =
      map (\<lambda>f. \<lparr>path' = filename' f, line_no = the (line' f),
                   body' = emoji_of E f @ '' **'' @ toUpperCase E (severity' f) @ ''** - ''
                           @ category' f @ [newline, newline] @ message' f
                           @ [newline, newline] @ light_bulb @ '' **Suggestion:** ''
                           @ suggestion' f\<rparr>)
        (filter (\<lambda>f. line' f \<noteq> None \<and> line' f \<noteq> Some 0) findings)"
    by (simp add: line_comments_eq line_comment_def)
  from entries remarks show ?thesis
    unfolding Let_def emoji_of_text [symmetric]
    by (simp add: calls)
qed

text \<open>
  The theorem at 31 findings with a line and one without, whose category is a name
  of \<^verbatim>\<open>Object.prototype\<close>: 31 comments are built, 30 are attached, and the sections
  of the findings are in the body.
\<close>

theorem postReview'_at_most_30_comments_witness:
  "engine_finding \<in> set (replicate 31 engine_finding @ [constructor_finding])
   \<and> constructor_finding \<in> set (replicate 31 engine_finding @ [constructor_finding])
   \<and> length (line_comments example_engine (replicate 31 engine_finding @ [constructor_finding])) = 31
   \<and> length (comments' (hd (postReview' example_engine ''codellama'' False ''o'' ''r'' 7 ''sha''
                               (replicate 31 engine_finding @ [constructor_finding])))) = 30
   \<and> sublist (''### '' @ red_circle @ '' '' @ bug_emoji @ '' a.ts (line 2)'' @ [newline]
               @ ''**Issue:** Null dereference'' @ [newline] @ ''**Fix:** Check for null''
               @ [newline, newline])
        (call_body' (hd (postReview' example_engine ''codellama'' False ''o'' ''r'' 7 ''sha''
                           (replicate 31 engine_finding @ [constructor_finding]))))
   \<and> sublist (''### '' @ red_circle @ '' function Object() { [native code] } b.ts'' @ [newline]
               @ ''**Issue:** Throws in the constructor'' @ [newline] @ ''**Fix:** Validate first''
               @ [newline, newline])
        (call_body' (hd (postReview' example_engine ''codellama'' False ''o'' ''r'' 7 ''sha''
                           (replicate 31 engine_finding @ [constructor_finding]))))"
proof -
  let ?fs = "replicate 31 engine_finding @ [constructor_finding]"
  let ?call = "hd (postReview' example_engine ''codellama'' False ''o'' ''r'' 7 ''sha'' ?fs)"
  let ?emoji = "\<lambda>f. (case map_of severityEmoji (severity' f) of
                        Some e \<Rightarrow> e
                      | None \<Rightarrow>
                          (case inherited_text example_engine (severity' f) of
                             Some t \<Rightarrow> t
                           | None \<Rightarrow> ''undefined''))
                     @ '' ''
                     @ (case map_of categoryEmoji (category' f) of
                          Some e \<Rightarrow> e
                        | None \<Rightarrow>
                            (case inherited_text example_engine (category' f) of
                               Some t \<Rightarrow> t
                             | None \<Rightarrow> pin_emoji))"
  let ?part = "\<lambda>f. ''### '' @ ?emoji f @ '' '' @ filename' f
                    @ (case line' f of
                         None \<Rightarrow> []
                       | Some lnum \<Rightarrow>
                           if lnum = 0 then []
                           else '' (line '' @ ToString example_engine (Num (of_int lnum)) @ '')'')
                    @ [newline] @ ''**Issue:** '' @ message' f @ [newline]
                    @ ''**Fix:** '' @ suggestion' f @ [newline, newline]"
  have l: "length (line_comments example_engine ?fs) = 31" by code_simp
  have m1: "engine_finding \<in> set ?fs" by simp
  have m2: "constructor_finding \<in> set ?fs" by simp
  have s1: "?part engine_finding =
      ''### '' @ red_circle @ '' '' @ bug_emoji @ '' a.ts (line 2)'' @ [newline]
      @ ''**Issue:** Null dereference'' @ [newline] @ ''**Fix:** Check for null'' @ [newline, newline]"
    by code_simp
  have s2: "?part constructor_finding =
      ''### '' @ red_circle @ '' function Object() { [native code] } b.ts'' @ [newline]
      @ ''**Issue:** Throws in the constructor'' @ [newline] @ ''**Fix:** Validate first''
      @ [newline, newline]"
    by code_simp
  from postReview'_at_most_30_comments [where E = example_engine and model_name = "''codellama''"
      and review_fails = False and own = "''o''" and rp = "''r''" and n = 7 and sha = "''sha''"
      and findings = "?fs", unfolded Let_def]
  have a: "comments' ?call = take 30 (line_comments example_engine ?fs)"
    and b: "\<forall>f\<in>set ?fs. sublist (?part f) (call_body' ?call)"
    by blast+
  from a l have 1: "length (comments' ?call) = 30" by simp
  from b m1 have "sublist (?part engine_finding) (call_body' ?call)" by blast
  then have 2: "sublist (''### '' @ red_circle @ '' '' @ bug_emoji @ '' a.ts (line 2)'' @ [newline]
               @ ''**Issue:** Null dereference'' @ [newline] @ ''**Fix:** Check for null''
               @ [newline, newline]) (call_body' ?call)"
    by (simp only: s1)
  from b m2 have "sublist (?part constructor_finding) (call_body' ?call)" by blast
  then have 3: "sublist (''### '' @ red_circle @ '' function Object() { [native code] } b.ts'' @ [newline]
               @ ''**Issue:** Throws in the constructor'' @ [newline] @ ''**Fix:** Validate first''
               @ [newline, newline]) (call_body' ?call)"
    by (simp only: s2)
  from l m1 m2 1 2 3 show ?thesis by simp
qed

section \<open>The classifier of \<open>parseReviewResponse\<close>\<close>

lemma get_prop_field: "f \<noteq> Null \<Longrightarrow> f \<noteq> Undefined \<Longrightarrow> get_prop E f k = Inr (field_of f k)"
  by (cases f) (simp_all add: field_of_def)

lemma valid_finding_eq:
  assumes "f \<noteq> Null" and "f \<noteq> Undefined"
  shows "valid_finding E f = Inr (all_truthy_and_severe f)"
  using assms
  by (auto simp: valid_finding_def falsy_prop_def or_else_def get_prop_field
      all_truthy_and_severe_def)

text \<open>
  Claim C4, as amended. For every sequence of candidates none of which is \<^verbatim>\<open>null\<close>,
  the filter of \<open>parseReviewResponse\<close> retains exactly the candidates whose
  severity, category, filename, message and suggestion are all truthy and whose
  severity is \<^verbatim>\<open>high\<close> or \<^verbatim>\<open>medium\<close>, so a candidate whose suggestion is the empty
  string is dropped like one whose suggestion is undefined; it keeps the retained
  candidates in the order of the input and throws nothing.
\<close>

theorem validFindings_keeps_truthy_high_medium:
  assumes "Null \<notin> set fs" and "Undefined \<notin> set fs"
  shows "validFindings E fs = Inr (filter all_truthy_and_severe fs)"
  using assms
proof (induction fs)
  case Nil
  show ?case by simp
next
  case (Cons f fs)
  then have "f \<noteq> Null" "f \<noteq> Undefined" by auto
  then have "valid_finding E f = Inr (all_truthy_and_severe f)" by (rule valid_finding_eq)
  with Cons show ?case by simp
qed

text \<open>
  The theorem at three candidates: the complete one of severity \<^verbatim>\<open>high\<close> is retained,
  the one with an empty suggestion and the one of severity \<^verbatim>\<open>low\<close> are dropped.
\<close>

theorem validFindings_keeps_truthy_high_medium_witness:
  "Null \<notin> set [candidate ''high'' ''Check for null'', candidate ''high'' [], candidate ''low'' ''Check for null'']
   \<and> Undefined \<notin> set [candidate ''high'' ''Check for null'', candidate ''high'' [], candidate ''low'' ''Check for null'']
   \<and> validFindings example_engine
        [candidate ''high'' ''Check for null'', candidate ''high'' [], candidate ''low'' ''Check for null'']
      = Inr [candidate ''high'' ''Check for null'']"
proof -
  let ?fs = "[candidate ''high'' ''Check for null'', candidate ''high'' [], candidate ''low'' ''Check for null'']"
  have a: "Null \<notin> set ?fs" and b: "Undefined \<notin> set ?fs" by (simp_all add: candidate_def)
  have c: "filter all_truthy_and_severe ?fs = [candidate ''high'' ''Check for null'']"
    by code_simp
  from validFindings_keeps_truthy_high_medium [OF a b, of example_engine] a b c
  show ?thesis by simp
qed

text \<open>
  Claim C4 as it is written does not hold: a candidate whose five fields are all
  defined, the suggestion being the empty string, is dropped.
\<close>

theorem empty_suggestion_is_dropped:
  "all_defined (candidate ''high'' []) \<and> validFindings example_engine [candidate ''high'' []] = Inr []"
  by code_simp

section \<open>The response extractor\<close>

text \<open>Stripping takes off nothing but the bytes of the sequences to strip.\<close>

lemma strip_keeps:
  "c \<in> set s \<Longrightarrow> \<forall>w\<in>set ws. c \<notin> set w \<Longrightarrow> c \<in> set (strip ws s)"
proof (induction ws s rule: strip.induct)
  case (1 ws s)
  show ?case
  proof (cases "leading ws s = 0")
    case True
    with 1(2) show ?thesis by (simp add: strip.simps [of ws s])
  next
    case False
    then obtain w where w: "find (\<lambda>w. prefix w s) ws = Some w" and len: "leading ws s = length w"
      by (auto simp: leading_def split: option.splits)
    from w have "w \<in> set ws" "prefix w s" by (auto simp: find_Some_iff)
    then have "s = w @ drop (length w) s" "c \<notin> set w"
      using 1(3) by (auto simp: prefix_def)
    with 1(2) have "c \<in> set (drop (length w) s)" by (metis Un_iff set_append)
    with 1(1) [OF False] 1(3) len have "c \<in> set (strip ws (drop (leading ws s) s))" by simp
    with False show ?thesis by (simp add: strip.simps [of ws s])
  qed
qed

lemma trim_keeps:
  assumes "c \<in> set s" and "\<forall>w\<in>set white_space. c \<notin> set w"
  shows "trim s \<noteq> []"
proof -
  from assms have "c \<in> set (rev (strip white_space s))" by (simp add: strip_keeps)
  moreover from assms(2) have "\<forall>w\<in>set (map rev white_space). c \<notin> set w" by simp
  ultimately have "c \<in> set (strip (map rev white_space) (rev (strip white_space s)))"
    by (rule strip_keeps)
  then show ?thesis by (auto simp: trim_def)
qed

lemma backtick_no_space: "\<forall>w\<in>set white_space. CHR 0x60 \<notin> set w"
  by (simp add: white_space_def)

lemma brace_no_space: "\<forall>w\<in>set white_space. CHR ''{'' \<notin> set w"
  by (simp add: white_space_def)

lemma fence_at_backtick: "fence_at s = Some g \<Longrightarrow> CHR 0x60 \<in> set s"
  by (cases s) (auto simp: fence_at_def expect_def startsWith_def split: option.splits if_splits)

lemma fence_match_backtick: "fence_match s = Some g \<Longrightarrow> CHR 0x60 \<in> set s"
proof (induction s)
  case Nil
  then show ?case by simp
next
  case (Cons c cs)
  then show ?case
    by (cases "fence_at (c # cs)") (auto dest: fence_at_backtick)
qed

lemma span_match_opening: "span_match opening closing s = Some m \<Longrightarrow> opening \<in> set s"
proof -
  assume "span_match opening closing s = Some m"
  then obtain c rest where "dropWhile (\<lambda>c. c \<noteq> opening) s = c # rest"
    by (auto simp: span_match_def split: list.splits)
  then have "hd (dropWhile (\<lambda>c. c \<noteq> opening) s) = opening" "dropWhile (\<lambda>c. c \<noteq> opening) s \<noteq> []"
    using hd_dropWhile [of "\<lambda>c. c \<noteq> opening" s] by auto
  then show ?thesis by (metis hd_in_set set_dropWhileD)
qed

text \<open>
  When the inner block throws, the text holds a backtick or a brace, so its trimmed
  form is not empty: the handler never writes \<^verbatim>\<open>No solution generated\<close>.
\<close>

lemma extract_json_throws_text:
  assumes "extract_json E s = Inl e"
  shows "trim s \<noteq> []"
proof (cases "fence_match s")
  case (Some g)
  then have "CHR 0x60 \<in> set s" by (rule fence_match_backtick)
  then show ?thesis using backtick_no_space by (rule trim_keeps)
next
  case None
  with assms obtain m where "span_match (CHR ''{'') (CHR ''}'') s = Some m"
    by (auto simp: extract_json_def split: option.splits)
  then have "CHR ''{'' \<in> set s" by (rule span_match_opening)
  then show ?thesis using brace_no_space by (rule trim_keeps)
qed

lemma extract_json_fails:
  assumes "attempts_fail E s"
  shows "extract_json E s = Inr (fallback (trim s)) \<or> isl (extract_json E s)"
  using assms
  by (auto simp: attempts_fail_def extract_json_def split: option.splits)

lemma extract_json_value:
  "extract_json E s = Inr v \<Longrightarrow> v = fallback (trim s) \<or> Inr v \<in> set (parse_attempts E s)"
  by (auto simp: extract_json_def parse_attempts_def split: option.splits if_splits)

text \<open>
  Claim C7 as it is written does not hold: for the text \<^verbatim>\<open>null\<close> the direct parse
  succeeds and \<open>parseLLMResponse\<close> returns \<^verbatim>\<open>null\<close>, which is not usable: its caller
  reads \<^verbatim>\<open>parsed.confidence\<close> next, and that throws.
\<close>

theorem null_response_is_not_usable:
  "parseLLMResponse example_engine (Str ''null'') = Inr Null
   \<and> \<not> usable Null
   \<and> build_fix example_engine group_a (Str ''null'') Null
       = Inl (Exn ''TypeError'' ''Cannot read property confidence'')"
proof -
  have 1: "parseLLMResponse example_engine (Str ''null'') = Inr Null" by code_simp
  have 2: "\<not> usable Null" by (simp add: usable_def)
  have 3: "build_fix example_engine group_a (Str ''null'') Null
       = Inl (Exn ''TypeError'' ''Cannot read property confidence'')" by code_simp
  from 1 2 3 show ?thesis by simp
qed

text \<open>
  Claim C7, as amended. For every input string, the empty string included,
  \<open>parseLLMResponse\<close> throws nothing and returns a value: either a value that
  \<^verbatim>\<open>JSON.parse\<close> has returned for the text, for the trimmed content of its fenced
  block or for its span of braces, whatever that value is, or the fallback record,
  of confidence \<^verbatim>\<open>low\<close>, with the trimmed text as its description. When the direct
  parse, the fenced block and the span of braces all fail, the value is the fallback
  record, which is usable.
\<close>

theorem parseLLMResponse_returns:
  "(\<exists>v. parseLLMResponse E (Str s) = Inr v
        \<and> (v = fallback (trim s) \<or> Inr v \<in> set (parse_attempts E s)))
   \<and> (attempts_fail E s \<longrightarrow> parseLLMResponse E (Str s) = Inr (fallback (trim s)))
   \<and> usable (fallback (trim s))
   \<and> field_of (fallback (trim s)) ''confidence'' = Str ''low''
   \<and> field_of (fallback (trim s)) ''description'' = Str (trim s)"
proof (intro conjI)
  show "\<exists>v. parseLLMResponse E (Str s) = Inr v
        \<and> (v = fallback (trim s) \<or> Inr v \<in> set (parse_attempts E s))"
  proof (cases "JSON_parse E s")
    case (Inr v)
    then show ?thesis by (simp add: parseLLMResponse_def as_text_def parse_attempts_def)
  next
    case (Inl e)
    show ?thesis
    proof (cases "extract_json E s")
      case (Inr v)
      with Inl extract_json_value [OF Inr] show ?thesis
        by (simp add: parseLLMResponse_def as_text_def)
    next
      case threw: (Inl e')
      from extract_json_throws_text [OF this] Inl threw show ?thesis
        by (simp add: parseLLMResponse_def as_text_def)
    qed
  qed
next
  show "attempts_fail E s \<longrightarrow> parseLLMResponse E (Str s) = Inr (fallback (trim s))"
  proof
    assume af: "attempts_fail E s"
    then obtain e where e: "JSON_parse E s = Inl e"
      by (cases "JSON_parse E s") (auto simp: attempts_fail_def)
    from extract_json_fails [OF af] show "parseLLMResponse E (Str s) = Inr (fallback (trim s))"
    proof
      assume "extract_json E s = Inr (fallback (trim s))"
      with e show ?thesis by (simp add: parseLLMResponse_def as_text_def)
    next
      assume "isl (extract_json E s)"
      then obtain e' where e': "extract_json E s = Inl e'" by (cases "extract_json E s") auto
      from extract_json_throws_text [OF this] e e' show ?thesis
        by (simp add: parseLLMResponse_def as_text_def)
    qed
  qed
next
  show "usable (fallback (trim s))" by (simp add: usable_def fallback_def)
next
  show "field_of (fallback (trim s)) ''confidence'' = Str ''low''"
    by (simp add: fallback_def field_of_def)
next
  show "field_of (fallback (trim s)) ''description'' = Str (trim s)"
    by (simp add: fallback_def field_of_def)
qed

text \<open>
  The theorem at the empty string, and at a text that is no JSON and begins with a
  no-break space.
\<close>

theorem parseLLMResponse_returns_witness:
  "attempts_fail example_engine []
   \<and> parseLLMResponse example_engine (Str []) = Inr (fallback [])
   \<and> attempts_fail example_engine ([CHR 0xC2, CHR 0xA0] @ ''Add a check '')
   \<and> parseLLMResponse example_engine (Str ([CHR 0xC2, CHR 0xA0] @ ''Add a check ''))
       = Inr (fallback ''Add a check'')"
proof -
  have af: "attempts_fail example_engine []" by code_simp
  have t: "trim [] = []" by code_simp
  have af2: "attempts_fail example_engine ([CHR 0xC2, CHR 0xA0] @ ''Add a check '')" by code_simp
  have t2: "trim ([CHR 0xC2, CHR 0xA0] @ ''Add a check '') = ''Add a check''" by code_simp
  from parseLLMResponse_returns [of example_engine "[]"]
    parseLLMResponse_returns [of example_engine "[CHR 0xC2, CHR 0xA0] @ ''Add a check ''"]
    af t af2 t2
  show ?thesis by simp
qed

text \<open>A fenced block whose content parses gives the parsed object.\<close>

lemma fenced_example:
  "parseLLMResponse example_engine
     (Str (''```json'' @ [newline] @ fenced_document @ [newline] @ ''```''))
   = Inr (Obj [(''a'', Num 1)])"
  by code_simp

section \<open>The provider template\<close>













section \<open>The batch of error groups\<close>




end
